theory Spec2Isabelle
  imports Complex_Main
begin

section \<open>The R3M performance load tester: data model\<close>

text \<open>
  The development embeds \<^verbatim>\<open>scripts/performance_loadtest.py\<close>. Python floats
  (timestamps, durations) are read as real numbers; Python's unbounded integers are
  \<^typ>\<open>int\<close>; strings are \<^typ>\<open>string\<close>. Everything the script takes from outside
  (the random generator, the clock, the remote service, a signal) is an explicit argument
  of the model.
\<close>

text \<open>A parsed JSON value, as \<^verbatim>\<open>response.json()\<close> returns it. An object is the
  list of its members (keys distinct after parsing).\<close>

datatype jval =
    JNull
  | JBool bool
  | JNum real
  | JStr string
  | JArr "jval list"
  | JObj "(string \<times> jval) list"

text \<open>The dataclass \<^verbatim>\<open>ProcessingMetrics\<close>. The six fields copied from the
  response hold whatever JSON value the service sent: Python does not check the
  annotations.\<close>

record ProcessingMetrics =
  operation_id :: string
  total_time :: real
  processing_time :: jval
  chunking_time :: jval
  total_chunks :: jval
  successful_chunks :: jval
  avg_quality_score :: jval
  avg_information_density :: jval
  memory_usage_mb :: real
  throughput_per_second :: real

text \<open>Exceptions as values. \<open>KeyboardInterrupt\<close> is the only one that is not a subclass
  of \<^verbatim>\<open>Exception\<close>, so \<^verbatim>\<open>except Exception\<close> and
  \<^verbatim>\<open>gather(..., return_exceptions=True)\<close> do not absorb it.\<close>

datatype exn =
    FileNotFoundError string
  | ClientConnectionError
  | ClientResponseError nat
  | JSONDecodeError
  | AttributeError
  | TypeError
  | StatisticsError
  | ValueError
  | ZeroDivisionError
  | KeyboardInterrupt

fun is_Exception :: "exn \<Rightarrow> bool" where
  "is_Exception KeyboardInterrupt = False"
| "is_Exception _ = True"


section \<open>Synthetic documents\<close>

definition words :: "string list" where
  "words =
    [''document'', ''processing'', ''system'', ''performance'', ''optimization'',
     ''chunking'', ''tokenization'', ''metadata'', ''analysis'', ''quality'',
     ''assessment'', ''parallel'', ''threading'', ''memory'', ''efficiency'',
     ''throughput'', ''latency'', ''benchmark'', ''profiling'', ''monitoring'']"

text \<open>The random generator is a tape \<open>rnd :: nat \<Rightarrow> nat\<close> of raw draws.
  \<^verbatim>\<open>random.randint(a, b)\<close> reduces one draw into \<open>[a, b]\<close>;
  \<^verbatim>\<open>random.choices(population, k=k)\<close> reduces \<open>k\<close> draws into indices.\<close>

definition randint :: "int \<Rightarrow> int \<Rightarrow> nat \<Rightarrow> int" where
  "randint a b r = a + int r mod (b - a + 1)"

definition choices :: "'a list \<Rightarrow> nat \<Rightarrow> (nat \<Rightarrow> nat) \<Rightarrow> 'a list" where
  "choices population k draw = map (\<lambda>j. population ! (draw j mod length population)) [0..<k]"

text \<open>\<^verbatim>\<open>sep.join(xs)\<close>\<close>

fun join :: "string \<Rightarrow> string list \<Rightarrow> string" where
  "join sep [] = []"
| "join sep [x] = x"
| "join sep (x # y # ys) = x @ sep @ join sep (y # ys)"

text \<open>\<^verbatim>\<open>s[:n]\<close>: a negative bound counts from the end.\<close>

definition slice_to :: "'a list \<Rightarrow> int \<Rightarrow> 'a list" where
  "slice_to s n = (if 0 \<le> n then take (nat n) s else take (nat (int (length s) + n)) s)"

text \<open>One pass of the loop body of \<^verbatim>\<open>create_test_document\<close>, reading the tape
  from position \<open>p\<close>: the sentence length, then that many words.\<close>

definition sentence_length_at :: "(nat \<Rightarrow> nat) \<Rightarrow> nat \<Rightarrow> nat" where
  "sentence_length_at rnd p = nat (randint 5 25 (rnd p))"

definition sentence_at :: "(nat \<Rightarrow> nat) \<Rightarrow> nat \<Rightarrow> string" where
  "sentence_at rnd p =
     join '' '' (choices words (sentence_length_at rnd p) (\<lambda>j. rnd (p + 1 + j))) @ ''. ''"

text \<open>The \<^verbatim>\<open>while len(document) < target_size\<close> loop.\<close>

function document_loop :: "(nat \<Rightarrow> nat) \<Rightarrow> nat \<Rightarrow> string \<Rightarrow> int \<Rightarrow> string" where
  "document_loop rnd p document target_size =
     (if int (length document) < target_size
      then document_loop rnd (p + 1 + sentence_length_at rnd p)
             (document @ sentence_at rnd p) target_size
      else document)"
  by pat_completeness auto
termination
  by (relation "measure (\<lambda>(rnd, p, document, target_size). nat (target_size - int (length document)))")
     (auto simp: sentence_at_def)

declare document_loop.simps [simp del]

definition create_test_document :: "(nat \<Rightarrow> nat) \<Rightarrow> int \<Rightarrow> string" where
  "create_test_document rnd size_kb =
     (let target_size = size_kb * 1024
      in slice_to (document_loop rnd 0 [] target_size) target_size)"

text \<open>A sentence as the specification describes it: 5 to 25 words of the vocabulary,
  joined by single spaces, closed by a period and a space.\<close>

definition is_sentence :: "string \<Rightarrow> bool" where
  "is_sentence s \<longleftrightarrow>
     (\<exists>ws. 5 \<le> length ws \<and> length ws \<le> 25 \<and> set ws \<subseteq> set words \<and> s = join '' '' ws @ ''. '')"


section \<open>The outside world\<close>

text \<open>\<^verbatim>\<open>str(n)\<close> for integers, and \<^verbatim>\<open>int(x)\<close> for floats (truncation
  towards zero).\<close>

fun string_of_nat :: "nat \<Rightarrow> string" where
  "string_of_nat n =
     (if n < 10 then [''0123456789'' ! n]
      else string_of_nat (n div 10) @ [''0123456789'' ! (n mod 10)])"

declare string_of_nat.simps [simp del]

definition str_int :: "int \<Rightarrow> string" where
  "str_int i = (if i < 0 then ''-'' @ string_of_nat (nat (- i)) else string_of_nat (nat i))"

definition py_int :: "real \<Rightarrow> int" where
  "py_int x = (if 0 \<le> x then \<lfloor>x\<rfloor> else \<lceil>x\<rceil>)"

text \<open>What the logger receives and what is printed, kept structured (the formatting of
  floats is not modelled).\<close>

datatype log_entry =
    Info_created_test_file string nat
  | Info_starting_load_test int
  | Info_test_duration int
  | Error_processing_failed exn
  | Error_batch_processing_failed exn
  | Error_no_metrics_collected
  | Info_interrupted_by_user
  | Error_load_test_failed exn

datatype out_item =
    Text string
  | Field string real
  | Stats string real real real
  | Results_exported string

record http_request =
  url :: string
  file_name :: string
  payload :: string

text \<open>The state outside the tester object: the files under the working directory, the
  log, the console, and the requests that have been posted.\<close>

record world =
  fs :: "string \<Rightarrow> string option"
  logged :: "log_entry list"
  stdout :: "out_item list"
  sent :: "http_request list"

text \<open>What one call of \<^verbatim>\<open>process_document\<close> meets: the two clock readings and
  what the service does with the request. A body that cannot be decoded is \<open>None\<close>.\<close>

datatype http_outcome =
    ConnectionFailed
  | Response nat "jval option"

record req_env =
  start_time :: real
  end_time :: real
  http :: http_outcome

text \<open>What \<^verbatim>\<open>await self.process_batch(...)\<close> does in the session loop: it
  returns the gathered outcomes (one environment per request), or an exception comes out
  of the \<^verbatim>\<open>await\<close> itself (a signal, a cancellation). The tasks of a batch start
  in order, so when the exception leaves the \<^verbatim>\<open>await\<close> the first \<open>k\<close> of them
  have read their file and posted their request; \<open>Raised e k\<close> carries that number.
  Nothing of such a batch is collected.\<close>

datatype batch_env =
    Gathered "nat \<Rightarrow> req_env"
  | Raised exn nat

fun is_Gathered :: "batch_env \<Rightarrow> bool" where
  "is_Gathered (Gathered _) = True"
| "is_Gathered (Raised _ _) = False"

text \<open>Everything one run takes from outside. \<open>tape s i\<close> is the random tape for the
  \<open>i\<close>-th document of session \<open>s\<close>; \<open>batch_envs s j\<close> is what batch \<open>j\<close> of
  session \<open>s\<close> meets; \<open>csv_text\<close> is the text \<^verbatim>\<open>csv.DictWriter\<close> produces
  for the given field names and rows.\<close>

record run_env =
  tape :: "nat \<Rightarrow> nat \<Rightarrow> nat \<Rightarrow> nat"
  batch_envs :: "nat \<Rightarrow> nat \<Rightarrow> batch_env"
  clock_start :: real
  clock_end :: real
  clock_export :: real
  csv_text :: "string list \<Rightarrow> ProcessingMetrics list \<Rightarrow> string"

record R3MPerformanceLoadTester =
  base_url :: string
  num_concurrent :: int
  documents_per_batch :: int
  test_duration_seconds :: int
  metrics :: "ProcessingMetrics list"

text \<open>\<^verbatim>\<open>__init__\<close>\<close>

definition init :: "string \<Rightarrow> int \<Rightarrow> int \<Rightarrow> int \<Rightarrow> R3MPerformanceLoadTester" where
  "init base concurrent per_batch duration =
     \<lparr>base_url = base, num_concurrent = concurrent, documents_per_batch = per_batch,
      test_duration_seconds = duration, metrics = []\<rparr>"


section \<open>The corpus of a session\<close>

definition sizes :: "int list" where
  "sizes = [1, 5, 10, 25, 50]"

definition test_file_name :: "nat \<Rightarrow> int \<Rightarrow> string" where
  "test_file_name i size_kb =
     ''data/loadtest_doc_'' @ string_of_nat i @ ''_'' @ str_int size_kb @ ''kb.txt''"

text \<open>The body of \<^verbatim>\<open>for i, size in enumerate(sizes)\<close>. Creating the directory
  and writing the file are taken to succeed.\<close>

fun create_test_files_loop ::
  "(nat \<Rightarrow> nat \<Rightarrow> nat) \<Rightarrow> (nat \<times> int) list \<Rightarrow> string list \<Rightarrow> world \<Rightarrow> string list \<times> world" where
  "create_test_files_loop rnd [] test_files w = (test_files, w)"
| "create_test_files_loop rnd ((i, size_kb) # rest) test_files w =
     (let filename = test_file_name i size_kb;
          content = create_test_document (rnd i) size_kb;
          w' = w\<lparr>fs := (fs w)(filename \<mapsto> content),
                 logged := logged w @ [Info_created_test_file filename (length content)]\<rparr>
      in create_test_files_loop rnd rest (test_files @ [filename]) w')"

definition create_test_files :: "(nat \<Rightarrow> nat \<Rightarrow> nat) \<Rightarrow> world \<Rightarrow> string list \<times> world" where
  "create_test_files rnd w = create_test_files_loop rnd (enumerate 0 sizes) [] w"


section \<open>One request\<close>

text \<open>\<^verbatim>\<open>os.path.basename\<close>\<close>

definition basename :: "string \<Rightarrow> string" where
  "basename p = rev (takeWhile (\<lambda>c. c \<noteq> CHR ''/'') (rev p))"

text \<open>\<^verbatim>\<open>d.get(key, dflt)\<close>\<close>

definition dict_get :: "(string \<times> jval) list \<Rightarrow> string \<Rightarrow> jval \<Rightarrow> jval" where
  "dict_get d k dflt = (case map_of d k of None \<Rightarrow> dflt | Some v \<Rightarrow> v)"

text \<open>\<^verbatim>\<open>response.raise_for_status()\<close> of aiohttp raises for a status of 400 or
  more.\<close>

definition raise_for_status :: "nat \<Rightarrow> exn + unit" where
  "raise_for_status status = (if 400 \<le> status then Inl (ClientResponseError status) else Inr ())"

text \<open>Python's \<^verbatim>\<open>a / b\<close> on floats raises \<^verbatim>\<open>ZeroDivisionError\<close> for a zero
  divisor.\<close>

definition py_truediv :: "real \<Rightarrow> real \<Rightarrow> exn + real" where
  "py_truediv a b = (if b = 0 then Inl ZeroDivisionError else Inr (a / b))"

text \<open>\<^verbatim>\<open>1.0 / total_time if total_time > 0 else 0.0\<close>\<close>

definition throughput :: "real \<Rightarrow> exn + real" where
  "throughput elapsed = (if elapsed > 0 then py_truediv 1 elapsed else Inr 0)"

text \<open>The part of \<^verbatim>\<open>process_document\<close> after the body has been decoded:
  \<^verbatim>\<open>result.get\<close> exists on a JSON object only. (The divisor of
  \<^verbatim>\<open>memory_usage_mb\<close> is the constant \<open>1024 * 1024\<close>.)\<close>

fun extract_metrics :: "real \<Rightarrow> real \<Rightarrow> string \<Rightarrow> jval \<Rightarrow> exn + ProcessingMetrics" where
  "extract_metrics t_start t_end file_content (JObj result) =
     (let elapsed = t_end - t_start
      in case throughput elapsed of
           Inl e \<Rightarrow> Inl e
         | Inr per_second \<Rightarrow>
             Inr \<lparr>operation_id = ''op_'' @ str_int (py_int (t_start * 1000)),
                  total_time = elapsed,
                  processing_time = dict_get result ''processing_time'' (JNum 0),
                  chunking_time = dict_get result ''chunking_time'' (JNum 0),
                  total_chunks = dict_get result ''total_chunks'' (JNum 0),
                  successful_chunks = dict_get result ''successful_chunks'' (JNum 0),
                  avg_quality_score = dict_get result ''avg_quality_score'' (JNum 0),
                  avg_information_density = dict_get result ''avg_information_density'' (JNum 0),
                  memory_usage_mb = real (length file_content) / (1024 * 1024),
                  throughput_per_second = per_second\<rparr>)"
| "extract_metrics t_start t_end file_content _ = Inl AttributeError"

text \<open>The first part of \<^verbatim>\<open>process_document\<close>, up to the call of
  \<^verbatim>\<open>session.post\<close>: the file is read and, if that succeeds, posted.\<close>

definition upload_request ::
  "string \<Rightarrow> (string \<Rightarrow> string option) \<Rightarrow> string \<Rightarrow> http_request option" where
  "upload_request base files file_path =
     (case files file_path of
        None \<Rightarrow> None
      | Some file_content \<Rightarrow>
          Some \<lparr>url = base @ ''/process'', file_name = basename file_path,
                 payload = file_content\<rparr>)"

text \<open>\<^verbatim>\<open>process_document\<close>: the request that was posted, if the file could be
  read, and the record or the exception of the call.\<close>

definition process_document ::
  "string \<Rightarrow> (string \<Rightarrow> string option) \<Rightarrow> string \<Rightarrow> req_env
     \<Rightarrow> http_request option \<times> (exn + ProcessingMetrics)" where
  "process_document base files file_path env =
     (case files file_path of
        None \<Rightarrow> (None, Inl (FileNotFoundError file_path))
      | Some file_content \<Rightarrow>
          (upload_request base files file_path,
           case http env of
             ConnectionFailed \<Rightarrow> Inl ClientConnectionError
           | Response status body \<Rightarrow>
               (case raise_for_status status of
                  Inl e \<Rightarrow> Inl e
                | Inr _ \<Rightarrow>
                    (case body of
                       None \<Rightarrow> Inl JSONDecodeError
                     | Some result \<Rightarrow>
                         extract_metrics (start_time env) (end_time env) file_content result))))"


section \<open>Batches and sessions\<close>

text \<open>\<^verbatim>\<open>process_batch\<close>: one task per file path, gathered with
  \<^verbatim>\<open>return_exceptions=True\<close>, so the result lists every outcome in order.\<close>

definition process_batch ::
  "string \<Rightarrow> (string \<Rightarrow> string option) \<Rightarrow> string list \<Rightarrow> (nat \<Rightarrow> req_env)
     \<Rightarrow> (http_request option \<times> (exn + ProcessingMetrics)) list" where
  "process_batch base files file_paths renv =
     map (\<lambda>(i, file_path). process_document base files file_path (renv i))
       (enumerate 0 file_paths)"

text \<open>The \<^verbatim>\<open>for metric in batch_metrics\<close> loop of the session.\<close>

fun collect ::
  "(exn + ProcessingMetrics) list \<Rightarrow> R3MPerformanceLoadTester \<times> world
     \<Rightarrow> R3MPerformanceLoadTester \<times> world" where
  "collect [] (self, w) = (self, w)"
| "collect (Inr metric # rest) (self, w) =
     collect rest (self\<lparr>metrics := metrics self @ [metric]\<rparr>, w)"
| "collect (Inl e # rest) (self, w) =
     collect rest (self, w\<lparr>logged := logged w @ [Error_processing_failed e]\<rparr>)"

definition successes :: "(exn + 'a) list \<Rightarrow> 'a list" where
  "successes outs = List.map_filter (\<lambda>r. case r of Inr m \<Rightarrow> Some m | Inl _ \<Rightarrow> None) outs"

definition failures :: "('e + 'a) list \<Rightarrow> 'e list" where
  "failures outs = List.map_filter (\<lambda>r. case r of Inl e \<Rightarrow> Some e | Inr _ \<Rightarrow> None) outs"

text \<open>\<^verbatim>\<open>batches\<close>: \<^verbatim>\<open>range(documents_per_batch)\<close> is empty for a
  negative bound.\<close>

definition make_batches :: "R3MPerformanceLoadTester \<Rightarrow> string list \<Rightarrow> string list list" where
  "make_batches self test_files =
     replicate (nat (documents_per_batch self)) (test_files @ test_files)"

text \<open>The \<^verbatim>\<open>for batch_files in batches\<close> loop with its
  \<^verbatim>\<open>try\<close>/\<^verbatim>\<open>except Exception\<close>. The result says whether an exception
  left the loop; the tester and the world are returned as they are at that moment. A
  batch whose \<^verbatim>\<open>await\<close> raises has posted the requests of the tasks that had
  started, and none of its outcomes is collected.\<close>

fun run_batches ::
  "(nat \<Rightarrow> batch_env) \<Rightarrow> nat \<Rightarrow> string list list \<Rightarrow> R3MPerformanceLoadTester \<times> world
     \<Rightarrow> exn option \<times> R3MPerformanceLoadTester \<times> world" where
  "run_batches benv j [] (self, w) = (None, self, w)"
| "run_batches benv j (batch_files # rest) (self, w) =
     (case benv j of
        Gathered renv \<Rightarrow>
          (let outs = process_batch (base_url self) (fs w) batch_files renv;
               w1 = w\<lparr>sent := sent w @ List.map_filter fst outs\<rparr>
           in run_batches benv (Suc j) rest (collect (map snd outs) (self, w1)))
      | Raised e k \<Rightarrow>
          (let w1 = w\<lparr>sent := sent w
                      @ List.map_filter (upload_request (base_url self) (fs w)) (take k batch_files)\<rparr>
           in if is_Exception e
              then run_batches benv (Suc j) rest
                     (self, w1\<lparr>logged := logged w1 @ [Error_batch_processing_failed e]\<rparr>)
              else (Some e, self, w1)))"

text \<open>\<^verbatim>\<open>run_concurrent_session\<close>, taken on its own.\<close>

definition run_concurrent_session ::
  "(nat \<Rightarrow> nat \<Rightarrow> nat) \<Rightarrow> (nat \<Rightarrow> batch_env) \<Rightarrow> R3MPerformanceLoadTester \<times> world
     \<Rightarrow> exn option \<times> R3MPerformanceLoadTester \<times> world" where
  "run_concurrent_session rnd benv sw =
     (let (test_files, w1) = create_test_files rnd (snd sw)
      in run_batches benv 0 (make_batches (fst sw) test_files) (fst sw, w1))"


section \<open>Aggregation and export\<close>

text \<open>\<^verbatim>\<open>statistics.mean\<close>, \<^verbatim>\<open>min\<close> and \<^verbatim>\<open>max\<close> raise on an empty
  list.\<close>

definition mean :: "real list \<Rightarrow> exn + real" where
  "mean xs = (if xs = [] then Inl StatisticsError else Inr (sum_list xs / real (length xs)))"

definition py_min :: "real list \<Rightarrow> exn + real" where
  "py_min xs = (case xs of [] \<Rightarrow> Inl ValueError | x # rest \<Rightarrow> Inr (fold min rest x))"

definition py_max :: "real list \<Rightarrow> exn + real" where
  "py_max xs = (case xs of [] \<Rightarrow> Inl ValueError | x # rest \<Rightarrow> Inr (fold max rest x))"

text \<open>A response field used as a number: JSON numbers and booleans are numbers for
  Python, anything else raises \<^verbatim>\<open>TypeError\<close> in the arithmetic.\<close>

fun number :: "jval \<Rightarrow> exn + real" where
  "number (JNum x) = Inr x"
| "number (JBool b) = Inr (if b then 1 else 0)"
| "number _ = Inl TypeError"

fun numbers :: "jval list \<Rightarrow> exn + real list" where
  "numbers [] = Inr []"
| "numbers (v # vs) =
     (case number v of
        Inl e \<Rightarrow> Inl e
      | Inr x \<Rightarrow> (case numbers vs of Inl e \<Rightarrow> Inl e | Inr xs \<Rightarrow> Inr (x # xs)))"

text \<open>One \<^verbatim>\<open>print\<close> of average, minimum and maximum; the f-string evaluates
  them in this order.\<close>

definition stats_line :: "string \<Rightarrow> real list \<Rightarrow> exn + out_item" where
  "stats_line label xs =
     (case mean xs of
        Inl e \<Rightarrow> Inl e
      | Inr avg \<Rightarrow>
          (case py_min xs of
             Inl e \<Rightarrow> Inl e
           | Inr lo \<Rightarrow> (case py_max xs of Inl e \<Rightarrow> Inl e | Inr hi \<Rightarrow> Inr (Stats label avg lo hi))))"

definition stats_line_json :: "string \<Rightarrow> jval list \<Rightarrow> exn + out_item" where
  "stats_line_json label vs =
     (case numbers vs of Inl e \<Rightarrow> Inl e | Inr xs \<Rightarrow> stats_line label xs)"

text \<open>\<^verbatim>\<open>len([m for m in self.metrics if m.successful_chunks > 0]) / len(self.metrics) * 100\<close>\<close>

definition success_rate_line :: "ProcessingMetrics list \<Rightarrow> exn + out_item" where
  "success_rate_line ms =
     (case numbers (map successful_chunks ms) of
        Inl e \<Rightarrow> Inl e
      | Inr xs \<Rightarrow>
          (if length ms = 0 then Inl ZeroDivisionError
           else Inr (Field ''Success Rate''
                  (real (length (filter (\<lambda>x. x > 0) xs)) / real (length ms) * 100))))"

text \<open>A sequence of \<^verbatim>\<open>print\<close> statements: the first whose argument raises ends
  it, and what was printed before stays printed.\<close>

fun print_lines :: "(exn + out_item) list \<Rightarrow> world \<Rightarrow> exn option \<times> world" where
  "print_lines [] w = (None, w)"
| "print_lines (Inl e # rest) w = (Some e, w)"
| "print_lines (Inr item # rest) w = print_lines rest (w\<lparr>stdout := stdout w @ [item]\<rparr>)"

definition fieldnames :: "string list" where
  "fieldnames =
     [''operation_id'', ''total_time'', ''processing_time'', ''chunking_time'',
      ''total_chunks'', ''successful_chunks'', ''avg_quality_score'',
      ''avg_information_density'', ''memory_usage_mb'', ''throughput_per_second'']"

definition results_file_name :: "real \<Rightarrow> string" where
  "results_file_name now = ''data/loadtest_results_'' @ str_int (py_int now) @ ''.csv''"

definition export_results_to_csv ::
  "run_env \<Rightarrow> R3MPerformanceLoadTester \<Rightarrow> world \<Rightarrow> world" where
  "export_results_to_csv env self w =
     (let filename = results_file_name (clock_export env)
      in w\<lparr>fs := (fs w)(filename \<mapsto> csv_text env fieldnames (metrics self)),
            stdout := stdout w @ [Results_exported filename]\<rparr>)"

definition report_lines :: "R3MPerformanceLoadTester \<Rightarrow> real \<Rightarrow> (exn + out_item) list" where
  "report_lines self elapsed =
     [Inr (Text ''R3M PERFORMANCE LOAD TEST RESULTS''),
      Inr (Text ''Test Summary''),
      Inr (Field ''Total Operations'' (real (length (metrics self)))),
      Inr (Field ''Test Duration'' elapsed),
      Inr (Field ''Concurrent Sessions'' (real_of_int (num_concurrent self))),
      Inr (Field ''Documents per Batch'' (real_of_int (documents_per_batch self))),
      Inr (Text ''Timing Statistics''),
      stats_line ''Total Time'' (map total_time (metrics self)),
      stats_line_json ''Processing Time'' (map processing_time (metrics self)),
      stats_line_json ''Chunking Time'' (map chunking_time (metrics self)),
      Inr (Text ''Throughput Statistics''),
      stats_line ''Throughput'' (map throughput_per_second (metrics self)),
      Inr (Text ''Chunking Statistics''),
      stats_line_json ''Total Chunks'' (map total_chunks (metrics self)),
      stats_line_json ''Successful Chunks'' (map successful_chunks (metrics self)),
      success_rate_line (metrics self)]"

text \<open>\<^verbatim>\<open>print_results\<close>: the guard on an empty \<^verbatim>\<open>self.metrics\<close>, the
  report, then the export.\<close>

definition print_results ::
  "run_env \<Rightarrow> real \<Rightarrow> R3MPerformanceLoadTester \<Rightarrow> world \<Rightarrow> exn option \<times> world" where
  "print_results env elapsed self w =
     (if metrics self = []
      then (None, w\<lparr>logged := logged w @ [Error_no_metrics_collected]\<rparr>)
      else (case print_lines (report_lines self elapsed) w of
              (Some e, w') \<Rightarrow> (Some e, w')
            | (None, w') \<Rightarrow> (None, export_results_to_csv env self w')))"


section \<open>The run\<close>

text \<open>
  \<^verbatim>\<open>run_load_test\<close> gathers \<open>num_concurrent\<close> session coroutines on one event
  loop. Each of them runs without suspension through \<^verbatim>\<open>create_test_files\<close>
  (which awaits nothing) up to its first \<^verbatim>\<open>await\<close> of a gathered batch, so every
  session has written its files before any request task reads one: the run is the
  preparation of all sessions in order, then their batch loops. The batch loops are taken
  session by session; they only read the files, so their interleaving does not change
  what a request reads. The order of the list is not an order in time: the sessions run
  side by side, each meets its own environment, and a signal reaches every session that
  is still running, each at its own \<^verbatim>\<open>await\<close>.
\<close>

fun prepare_sessions ::
  "(nat \<Rightarrow> nat \<Rightarrow> nat \<Rightarrow> nat) \<Rightarrow> nat list \<Rightarrow> world \<Rightarrow> (nat \<times> string list) list \<times> world" where
  "prepare_sessions tp [] w = ([], w)"
| "prepare_sessions tp (s # ss) w =
     (let (test_files, w1) = create_test_files (tp s) w;
          (rest, w2) = prepare_sessions tp ss w1
      in ((s, test_files) # rest, w2))"

text \<open>The outer \<^verbatim>\<open>gather(..., return_exceptions=True)\<close>: every session runs
  its loop as far as its environment lets it; an \<^verbatim>\<open>Exception\<close> of a session is
  absorbed, anything else (the first in the order of the sessions) leaves the gather and
  ends the run.\<close>

fun run_sessions ::
  "(nat \<Rightarrow> nat \<Rightarrow> batch_env) \<Rightarrow> (nat \<times> string list) list \<Rightarrow> R3MPerformanceLoadTester \<times> world
     \<Rightarrow> exn option \<times> R3MPerformanceLoadTester \<times> world" where
  "run_sessions benv [] sw = (None, sw)"
| "run_sessions benv ((s, test_files) # rest) sw =
     (case run_batches (benv s) 0 (make_batches (fst sw) test_files) sw of
        (None, sw') \<Rightarrow> run_sessions benv rest sw'
      | (Some e, sw') \<Rightarrow>
          (if is_Exception e then run_sessions benv rest sw'
           else (Some e, snd (run_sessions benv rest sw'))))"

definition run_load_test ::
  "run_env \<Rightarrow> R3MPerformanceLoadTester \<times> world
     \<Rightarrow> exn option \<times> R3MPerformanceLoadTester \<times> world" where
  "run_load_test env sw =
     (let self = fst sw;
          w0 = (snd sw)\<lparr>logged := logged (snd sw) @
                  [Info_starting_load_test (num_concurrent self),
                   Info_test_duration (test_duration_seconds self)]\<rparr>;
          (sessions, w1) = prepare_sessions (tape env) [0..<nat (num_concurrent self)] w0
      in (case run_sessions (batch_envs env) sessions (self, w1) of
            (Some e, sw') \<Rightarrow> (Some e, sw')
          | (None, self', w2) \<Rightarrow>
              (case print_results env (clock_end env - clock_start env) self' w2 of
                 (status, w3) \<Rightarrow> (status, self', w3))))"

text \<open>The parsed command line, and \<^verbatim>\<open>main\<close>: the exit code, the tester and
  the world when the process ends.\<close>

record args =
  arg_url :: string
  arg_concurrent :: int
  arg_batch_size :: int
  arg_duration :: int

definition main :: "args \<Rightarrow> run_env \<Rightarrow> world \<Rightarrow> int \<times> R3MPerformanceLoadTester \<times> world" where
  "main a env w =
     (let load_tester = init (arg_url a) (arg_concurrent a) (arg_batch_size a) (arg_duration a)
      in (case run_load_test env (load_tester, w) of
            (None, self, w') \<Rightarrow> (0, self, w')
          | (Some KeyboardInterrupt, self, w') \<Rightarrow>
              (0, self, w'\<lparr>logged := logged w' @ [Info_interrupted_by_user]\<rparr>)
          | (Some e, self, w') \<Rightarrow>
              (1, self, w'\<lparr>logged := logged w' @ [Error_load_test_failed e]\<rparr>)))"


section \<open>Observations and concrete inputs\<close>

text \<open>The file names a session writes, and the number of failed requests a log
  records.\<close>

definition corpus_files :: "string list" where
  "corpus_files = map (\<lambda>(i, size_kb). test_file_name i size_kb) (enumerate 0 sizes)"

fun is_processing_failure :: "log_entry \<Rightarrow> bool" where
  "is_processing_failure (Error_processing_failed _) = True"
| "is_processing_failure _ = False"

definition failed_requests :: "world \<Rightarrow> nat" where
  "failed_requests w = length (filter is_processing_failure (logged w))"

text \<open>Inputs used to run the model: a staging directory with one short document, an
  empty world, and replies of the service.\<close>

definition zero_tape :: "nat \<Rightarrow> nat" where
  "zero_tape k = 0"

definition example_url :: string where
  "example_url = ''http://localhost:8080''"

definition example_files :: "string \<Rightarrow> string option" where
  "example_files = [''data/loadtest_doc_0_1kb.txt'' \<mapsto> ''document system. '']"

definition empty_world :: world where
  "empty_world = \<lparr>fs = Map.empty, logged = [], stdout = [], sent = []\<rparr>"

definition good_reply :: req_env where
  "good_reply =
     \<lparr>start_time = 1, end_time = 3,
      http = Response 200 (Some (JObj [(''success'', JBool True), (''total_chunks'', JNum 4)]))\<rparr>"

definition instant_reply :: req_env where
  "instant_reply =
     \<lparr>start_time = 1, end_time = 1,
      http = Response 200 (Some (JObj [(''success'', JBool True), (''total_chunks'', JNum 4)]))\<rparr>"

definition unsuccessful_reply :: req_env where
  "unsuccessful_reply =
     \<lparr>start_time = 1, end_time = 3,
      http = Response 200 (Some (JObj [(''success'', JBool False), (''error'', JStr ''failed'')]))\<rparr>"

definition server_error_reply :: req_env where
  "server_error_reply = \<lparr>start_time = 1, end_time = 3, http = Response 500 None\<rparr>"

text \<open>Requests of one batch started a tenth of a millisecond apart.\<close>

definition same_millisecond :: "nat \<Rightarrow> req_env" where
  "same_millisecond i =
     \<lparr>start_time = 1700000000 + (1 + real i) / 10000, end_time = 1700000001,
      http = Response 200 (Some (JObj [(''success'', JBool True)]))\<rparr>"

definition zero_tapes :: "nat \<Rightarrow> nat \<Rightarrow> nat" where
  "zero_tapes i k = 0"

text \<open>Batches in which every request is answered well, and a batch whose first request
  meets a server error.\<close>

definition all_good :: "nat \<Rightarrow> batch_env" where
  "all_good j = Gathered (\<lambda>i. good_reply)"

definition one_failure :: "nat \<Rightarrow> req_env" where
  "one_failure i = (if i = 0 then server_error_reply else good_reply)"

definition failing_batch :: "nat \<Rightarrow> batch_env" where
  "failing_batch j = Gathered one_failure"

definition same_millisecond_batch :: "nat \<Rightarrow> batch_env" where
  "same_millisecond_batch j = Gathered same_millisecond"

text \<open>A command line, a service that answers every request with status 500, and a run
  interrupted while its second batch is awaited.\<close>

definition example_args :: args where
  "example_args = \<lparr>arg_url = example_url, arg_concurrent = 1, arg_batch_size = 2, arg_duration = 60\<rparr>"

definition failing_service :: run_env where
  "failing_service =
     \<lparr>tape = (\<lambda>s. zero_tapes), batch_envs = (\<lambda>s j. Gathered (\<lambda>i. server_error_reply)),
      clock_start = 0, clock_end = 5, clock_export = 5, csv_text = (\<lambda>names rows. [])\<rparr>"

definition interrupted_service :: run_env where
  "interrupted_service =
     \<lparr>tape = (\<lambda>s. zero_tapes),
      batch_envs = (\<lambda>s j. if j = 0 then Gathered (\<lambda>i. good_reply)
                           else Raised KeyboardInterrupt 10),
      clock_start = 0, clock_end = 5, clock_export = 5, csv_text = (\<lambda>names rows. [])\<rparr>"

text \<open>A record for the report, and tapes that differ from session to session.\<close>

definition one_record :: ProcessingMetrics where
  "one_record =
     \<lparr>operation_id = ''op_1000'', total_time = 2, processing_time = JNum 1,
      chunking_time = JNum 1, total_chunks = JNum 4, successful_chunks = JNum 4,
      avg_quality_score = JNum 0, avg_information_density = JNum 0,
      memory_usage_mb = 0, throughput_per_second = 1 / 2\<rparr>"

definition session_tapes :: "nat \<Rightarrow> nat \<Rightarrow> nat \<Rightarrow> nat" where
  "session_tapes s i k = s"

section \<open>Properties of the document generator\<close>

lemma sentence_length_at_bounds:
  "5 \<le> sentence_length_at rnd p \<and> sentence_length_at rnd p \<le> 25"
proof -
  have "randint 5 25 (rnd p) = 5 + int (rnd p) mod 21"
    by (simp add: randint_def)
  moreover have "0 \<le> int (rnd p) mod 21" "int (rnd p) mod 21 < 21"
    by simp_all
  ultimately show ?thesis
    unfolding sentence_length_at_def by linarith
qed

lemma choices_words_subset: "set (choices words k draw) \<subseteq> set words"
proof -
  have "length words = 20" by (simp add: words_def)
  then have "\<And>j. words ! (draw j mod length words) \<in> set words"
    by (intro nth_mem) simp
  then show ?thesis
    unfolding choices_def by auto
qed

lemma length_choices: "length (choices population k draw) = k"
  by (simp add: choices_def)

lemma sentence_at_is_sentence: "is_sentence (sentence_at rnd p)"
  unfolding is_sentence_def sentence_at_def
  using sentence_length_at_bounds [of rnd p] choices_words_subset
  by (intro exI [of _ "choices words (sentence_length_at rnd p) (\<lambda>j. rnd (p + 1 + j))"])
     (simp add: length_choices)

lemma document_loop_reaches_target:
  "target_size \<le> int (length (document_loop rnd p document target_size))"
proof (induction rnd p document target_size rule: document_loop.induct)
  case (1 rnd p document target_size)
  show ?case
  proof (cases "int (length document) < target_size")
    case True
    with "1.IH" show ?thesis
      by (simp add: document_loop.simps [of rnd p document target_size])
  next
    case False
    then show ?thesis
      by (simp add: document_loop.simps [of rnd p document target_size])
  qed
qed

lemma document_loop_sentences:
  "\<exists>ss. list_all is_sentence ss
      \<and> document_loop rnd p document target_size = document @ concat ss
      \<and> (ss \<noteq> [] \<longrightarrow> int (length (document @ concat (butlast ss))) < target_size)"
proof (induction rnd p document target_size rule: document_loop.induct)
  case (1 rnd p document target_size)
  show ?case
  proof (cases "int (length document) < target_size")
    case True
    let ?s = "sentence_at rnd p"
    from "1.IH" [OF True] obtain ss where ss:
      "list_all is_sentence ss"
      "document_loop rnd (p + 1 + sentence_length_at rnd p) (document @ ?s) target_size
         = (document @ ?s) @ concat ss"
      "ss \<noteq> [] \<longrightarrow> int (length ((document @ ?s) @ concat (butlast ss))) < target_size"
      by blast
    have "list_all is_sentence (?s # ss)"
      using ss(1) sentence_at_is_sentence by simp
    moreover have "document_loop rnd p document target_size = document @ concat (?s # ss)"
      using True ss(2) by (simp add: document_loop.simps [of rnd p document target_size])
    moreover have "int (length (document @ concat (butlast (?s # ss)))) < target_size"
      using True ss(3) by (cases "ss = []") simp_all
    ultimately show ?thesis by blast
  next
    case False
    then have "document_loop rnd p document target_size = document @ concat []"
      by (simp add: document_loop.simps [of rnd p document target_size])
    then show ?thesis
      by (intro exI [of _ "[]"]) simp
  qed
qed

text \<open>
  Claim C8. For every target size of at least 1 KB and every behaviour of the random
  generator, \<^verbatim>\<open>create_test_document\<close> returns (the function is total, so there is
  no error case) a non-empty text of exactly \<open>target \<times> 1024\<close> characters. The text is
  the first \<open>target \<times> 1024\<close> characters of a concatenation of sentences of 5 to 25
  vocabulary words, and sentences were appended only while the accumulated length was
  still below the target.
\<close>

theorem create_test_document_exact_size:
  assumes "1 \<le> size_kb"
  shows "length (create_test_document rnd size_kb) = nat (size_kb * 1024)
       \<and> create_test_document rnd size_kb \<noteq> []
       \<and> (\<exists>ss. list_all is_sentence ss
             \<and> create_test_document rnd size_kb = take (nat (size_kb * 1024)) (concat ss)
             \<and> int (length (concat (butlast ss))) < size_kb * 1024
             \<and> size_kb * 1024 \<le> int (length (concat ss)))"
proof -
  let ?t = "size_kb * 1024"
  let ?d = "document_loop rnd 0 [] ?t"
  have pos: "0 < ?t" using assms by simp
  have doc: "create_test_document rnd size_kb = take (nat ?t) ?d"
    using pos by (simp add: create_test_document_def slice_to_def Let_def)
  have reach: "?t \<le> int (length ?d)"
    by (rule document_loop_reaches_target)
  have "nat ?t \<le> length ?d"
    using reach by linarith
  then have len: "length (create_test_document rnd size_kb) = nat ?t"
    by (simp add: doc)
  have nonempty: "create_test_document rnd size_kb \<noteq> []"
    using len pos by auto
  obtain ss where ss: "list_all is_sentence ss" "?d = [] @ concat ss"
    "ss \<noteq> [] \<longrightarrow> int (length ([] @ concat (butlast ss))) < ?t"
    using document_loop_sentences [of rnd 0 "[]" ?t] by blast
  have "ss \<noteq> []"
    using reach pos ss(2) by auto
  then have "int (length (concat (butlast ss))) < ?t"
    using ss(3) by simp
  moreover have "?t \<le> int (length (concat ss))"
    using reach ss(2) by simp
  moreover have "create_test_document rnd size_kb = take (nat ?t) (concat ss)"
    using doc ss(2) by simp
  ultimately show ?thesis
    using len nonempty ss(1) by blast
qed

theorem create_test_document_exact_size_witness:
  "(1::int) \<le> 1
   \<and> length (create_test_document zero_tape 1) = 1024
   \<and> create_test_document zero_tape 1 \<noteq> []"
  using create_test_document_exact_size [of 1 zero_tape] by simp


section \<open>Properties of one request\<close>

lemma extract_metrics_Inr_iff:
  "(\<exists>m. extract_metrics t0 t1 c v = Inr m) \<longleftrightarrow> (\<exists>result. v = JObj result)"
  by (cases v) (simp_all add: Let_def throughput_def py_truediv_def)

text \<open>
  Claim C7. \<^verbatim>\<open>process_document\<close> never ends in a division by zero, whatever
  the clock readings are (Python's division, which raises on a zero divisor, is reached
  only for a positive \<open>total_time\<close>). Every record it returns has \<open>total_time\<close> equal
  to the difference of the two clock readings, a throughput of 0 when \<open>total_time\<close> is 0
  (or negative), and a throughput of exactly \<open>1 / total_time\<close> when \<open>total_time\<close> is
  positive. A request that is answered with a status below 400 and a JSON object yields
  such a record also when \<open>total_time\<close> is 0. (Times are real numbers here, so the
  quotient is exact and finite.)
\<close>

theorem throughput_of_completed_request:
  "snd (process_document base files file_path env) \<noteq> Inl ZeroDivisionError
   \<and> (\<forall>m. snd (process_document base files file_path env) = Inr m \<longrightarrow>
          total_time m = end_time env - start_time env
        \<and> (total_time m = 0 \<longrightarrow> throughput_per_second m = 0)
        \<and> (0 < total_time m \<longrightarrow>
              py_truediv 1 (total_time m) = Inr (throughput_per_second m)
              \<and> throughput_per_second m = 1 / total_time m)
        \<and> (total_time m < 0 \<longrightarrow> throughput_per_second m = 0))
   \<and> (\<forall>file_content status result.
          files file_path = Some file_content
          \<and> http env = Response status (Some (JObj result)) \<and> status < 400 \<longrightarrow>
          (\<exists>m. snd (process_document base files file_path env) = Inr m))"
proof (intro conjI allI impI)
  have "extract_metrics t0 t1 c v \<noteq> Inl ZeroDivisionError" for t0 t1 c v
    by (cases v) (simp_all add: Let_def throughput_def py_truediv_def)
  then show "snd (process_document base files file_path env) \<noteq> Inl ZeroDivisionError"
    by (simp add: process_document_def raise_for_status_def
        split: option.splits http_outcome.splits)
next
  fix m
  assume "snd (process_document base files file_path env) = Inr m"
  then obtain file_content v where
    "extract_metrics (start_time env) (end_time env) file_content v = Inr m"
    by (auto simp: process_document_def split: option.splits http_outcome.splits sum.splits)
  then obtain result where
    m: "extract_metrics (start_time env) (end_time env) file_content (JObj result) = Inr m"
    by (cases v) simp_all
  let ?elapsed = "end_time env - start_time env"
  from m obtain per_second where
    t: "throughput ?elapsed = Inr per_second"
      "total_time m = ?elapsed" "throughput_per_second m = per_second"
    by (auto simp: Let_def split: sum.splits)
  show "total_time m = end_time env - start_time env"
    by (rule t(2))
  show "throughput_per_second m = 0" if "total_time m = 0"
    using that t by (simp add: throughput_def)
  show "py_truediv 1 (total_time m) = Inr (throughput_per_second m)" if "0 < total_time m"
    using that t by (simp add: throughput_def)
  show "throughput_per_second m = 1 / total_time m" if "0 < total_time m"
    using that t by (simp add: throughput_def py_truediv_def)
  show "throughput_per_second m = 0" if "total_time m < 0"
    using that t by (simp add: throughput_def)
next
  fix file_content status result
  assume "files file_path = Some file_content
      \<and> http env = Response status (Some (JObj result)) \<and> status < 400"
  then show "\<exists>m. snd (process_document base files file_path env) = Inr m"
    using extract_metrics_Inr_iff [of "start_time env" "end_time env" file_content "JObj result"]
    by (auto simp: process_document_def raise_for_status_def)
qed

theorem throughput_of_completed_request_witness:
  "example_files ''data/loadtest_doc_0_1kb.txt'' = Some ''document system. ''
   \<and> http instant_reply
       = Response 200 (Some (JObj [(''success'', JBool True), (''total_chunks'', JNum 4)]))
   \<and> snd (process_document example_url example_files ''data/loadtest_doc_0_1kb.txt''
            instant_reply) \<noteq> Inl ZeroDivisionError
   \<and> (\<exists>m. snd (process_document example_url example_files ''data/loadtest_doc_0_1kb.txt''
                  instant_reply) = Inr m
          \<and> total_time m = 0 \<and> throughput_per_second m = 0)
   \<and> (\<exists>m. snd (process_document example_url example_files ''data/loadtest_doc_0_1kb.txt''
                  good_reply) = Inr m
          \<and> 0 < total_time m \<and> throughput_per_second m = 1 / 2)"
proof -
  have files: "example_files ''data/loadtest_doc_0_1kb.txt'' = Some ''document system. ''"
    by (simp add: example_files_def)
  have reply: "http instant_reply
      = Response 200 (Some (JObj [(''success'', JBool True), (''total_chunks'', JNum 4)]))"
    "http good_reply
      = Response 200 (Some (JObj [(''success'', JBool True), (''total_chunks'', JNum 4)]))"
    by (simp_all add: instant_reply_def good_reply_def)
  have status: "(200::nat) < 400" by simp
  note instant = throughput_of_completed_request
    [of example_url example_files "''data/loadtest_doc_0_1kb.txt''" instant_reply]
  note good = throughput_of_completed_request
    [of example_url example_files "''data/loadtest_doc_0_1kb.txt''" good_reply]
  from instant files reply(1) obtain m0 where
    m0: "snd (process_document example_url example_files ''data/loadtest_doc_0_1kb.txt''
               instant_reply) = Inr m0"
    using status by blast
  from good files reply(2) obtain m2 where
    m2: "snd (process_document example_url example_files ''data/loadtest_doc_0_1kb.txt''
               good_reply) = Inr m2"
    using status by blast
  have "total_time m0 = 0"
    using instant m0 by (simp add: instant_reply_def)
  moreover from this have "throughput_per_second m0 = 0"
    using instant m0 by blast
  moreover have t2: "total_time m2 = 2"
    using good m2 by (simp add: good_reply_def)
  moreover from t2 have "throughput_per_second m2 = 1 / 2"
    using good m2 by simp
  ultimately show ?thesis
    using files reply(1) instant m0 m2 by simp
qed

text \<open>
  Claim C2, as stated, fails: a reply with status 200 whose body is a JSON object with
  \<open>success\<close> false is not a failure; \<^verbatim>\<open>process_document\<close> returns a record for it.
\<close>

theorem success_flag_not_checked_counterexample:
  "dict_get [(''success'', JBool False), (''error'', JStr ''failed'')] ''success'' JNull \<noteq> JBool True
   \<and> \<not> isl (snd (process_document example_url example_files ''data/loadtest_doc_0_1kb.txt''
                  unsuccessful_reply))"
  by (simp add: process_document_def example_files_def unsuccessful_reply_def
      raise_for_status_def dict_get_def Let_def throughput_def py_truediv_def)

text \<open>
  Claim C2, amended. \<^verbatim>\<open>process_document\<close> returns a record exactly when the file
  could be read, the service answered with a status below 400, and the body decoded to a
  JSON object, whatever members that object has. In every other case (unreadable file,
  no connection, status 400 or more, undecodable body, a body that is not an object) the
  outcome is an exception, which is a failed request.
\<close>

theorem process_document_success_condition:
  "(\<exists>m. snd (process_document base files file_path env) = Inr m)
     \<longleftrightarrow> files file_path \<noteq> None
        \<and> (\<exists>status result. http env = Response status (Some (JObj result)) \<and> status < 400)"
proof (cases "files file_path")
  case None
  then show ?thesis by (simp add: process_document_def)
next
  case (Some file_content)
  show ?thesis
  proof (cases "http env")
    case ConnectionFailed
    with Some show ?thesis by (simp add: process_document_def)
  next
    case (Response status body)
    show ?thesis
    proof (cases body)
      case None
      with Some Response show ?thesis
        by (simp add: process_document_def raise_for_status_def)
    next
      case (Some result)
      with \<open>files file_path = Some file_content\<close> Response
        extract_metrics_Inr_iff [of "start_time env" "end_time env" file_content result]
      show ?thesis
        by (auto simp: process_document_def raise_for_status_def)
    qed
  qed
qed

theorem process_document_success_condition_witness:
  "(\<exists>m. snd (process_document example_url example_files ''data/loadtest_doc_0_1kb.txt''
            unsuccessful_reply) = Inr m)
   \<and> example_files ''data/loadtest_doc_0_1kb.txt'' \<noteq> None
   \<and> http unsuccessful_reply
       = Response 200 (Some (JObj [(''success'', JBool False), (''error'', JStr ''failed'')]))"
  using process_document_success_condition
    [of example_url example_files "''data/loadtest_doc_0_1kb.txt''" unsuccessful_reply]
  by (simp add: example_files_def unsuccessful_reply_def)

section \<open>Properties of batches and sessions\<close>

lemma corpus_files_eq:
  "corpus_files =
     [''data/loadtest_doc_0_1kb.txt'', ''data/loadtest_doc_1_5kb.txt'',
      ''data/loadtest_doc_2_10kb.txt'', ''data/loadtest_doc_3_25kb.txt'',
      ''data/loadtest_doc_4_50kb.txt'']"
  by (simp add: corpus_files_def sizes_def test_file_name_def str_int_def string_of_nat.simps)

lemma create_test_files_loop_files:
  "fst (create_test_files_loop rnd xs acc w) = acc @ map (\<lambda>(i, size_kb). test_file_name i size_kb) xs"
  by (induction rnd xs acc w rule: create_test_files_loop.induct) (simp_all add: Let_def)

lemma create_test_files_files: "fst (create_test_files rnd w) = corpus_files"
  by (simp add: create_test_files_def create_test_files_loop_files corpus_files_def)

lemma create_test_files_loop_frame:
  "sent (snd (create_test_files_loop rnd xs acc w)) = sent w
   \<and> stdout (snd (create_test_files_loop rnd xs acc w)) = stdout w
   \<and> failed_requests (snd (create_test_files_loop rnd xs acc w)) = failed_requests w"
  by (induction rnd xs acc w rule: create_test_files_loop.induct)
     (simp_all add: Let_def failed_requests_def)

lemma create_test_files_frame:
  "sent (snd (create_test_files rnd w)) = sent w"
  "stdout (snd (create_test_files rnd w)) = stdout w"
  "failed_requests (snd (create_test_files rnd w)) = failed_requests w"
  by (simp_all add: create_test_files_def create_test_files_loop_frame)

lemma create_test_files_fs:
  "fs (snd (create_test_files rnd w)) =
     (fs w)(''data/loadtest_doc_0_1kb.txt'' \<mapsto> create_test_document (rnd 0) 1,
            ''data/loadtest_doc_1_5kb.txt'' \<mapsto> create_test_document (rnd 1) 5,
            ''data/loadtest_doc_2_10kb.txt'' \<mapsto> create_test_document (rnd 2) 10,
            ''data/loadtest_doc_3_25kb.txt'' \<mapsto> create_test_document (rnd 3) 25,
            ''data/loadtest_doc_4_50kb.txt'' \<mapsto> create_test_document (rnd 4) 50)"
  by (simp add: create_test_files_def sizes_def test_file_name_def str_int_def
      string_of_nat.simps Let_def) (simp add: eval_nat_numeral)

lemma corpus_files_written:
  "p \<in> set corpus_files \<Longrightarrow> fs (snd (create_test_files rnd w)) p \<noteq> None"
  by (auto simp: corpus_files_eq create_test_files_fs)

lemma collect_eq:
  "collect outs (self, w) =
     (self\<lparr>metrics := metrics self @ successes outs\<rparr>,
      w\<lparr>logged := logged w @ map Error_processing_failed (failures outs)\<rparr>)"
proof (induction outs arbitrary: self w)
  case Nil
  show ?case by (simp add: successes_def failures_def)
next
  case (Cons r outs)
  show ?case
    by (cases r) (simp_all add: Cons.IH successes_def failures_def)
qed

lemma length_successes_failures:
  "length (successes outs) + length (failures outs) = length outs"
  by (induction outs) (simp_all add: successes_def failures_def split: sum.splits)

lemma length_process_batch: "length (process_batch base files ps renv) = length ps"
  by (simp add: process_batch_def)

lemma nth_process_batch:
  "k < length ps \<Longrightarrow>
   process_batch base files ps renv ! k = process_document base files (ps ! k) (renv k)"
  by (simp add: process_batch_def nth_enumerate_eq)

lemma process_document_posts:
  "files p \<noteq> None \<Longrightarrow> fst (process_document base files p env) \<noteq> None"
  by (auto simp: process_document_def upload_request_def)

lemma process_batch_posts_all:
  assumes "\<forall>p \<in> set ps. files p \<noteq> None"
  shows "length (List.map_filter fst (process_batch base files ps renv)) = length ps"
proof -
  have "\<forall>r \<in> set (process_batch base files ps renv). fst r \<noteq> None"
  proof
    fix r assume "r \<in> set (process_batch base files ps renv)"
    then obtain k where k: "k < length ps" "r = process_document base files (ps ! k) (renv k)"
      by (auto simp: in_set_conv_nth length_process_batch nth_process_batch)
    with assms have "files (ps ! k) \<noteq> None" by simp
    with k(2) show "fst r \<noteq> None" by (simp add: process_document_posts)
  qed
  then have "filter (\<lambda>r. fst r \<noteq> None) (process_batch base files ps renv)
      = process_batch base files ps renv"
    by (simp add: filter_id_conv)
  then show ?thesis
    by (simp add: List.map_filter_def length_process_batch)
qed

lemma run_batches_Gathered:
  assumes "benv j = Gathered renv"
  shows "run_batches benv j (batch_files # rest) (self, w) =
     run_batches benv (Suc j) rest
       (self\<lparr>metrics := metrics self
            @ successes (map snd (process_batch (base_url self) (fs w) batch_files renv))\<rparr>,
        w\<lparr>sent := sent w @ List.map_filter fst (process_batch (base_url self) (fs w) batch_files renv),
          logged := logged w @ map Error_processing_failed
            (failures (map snd (process_batch (base_url self) (fs w) batch_files renv)))\<rparr>)"
  using assms by (simp add: Let_def collect_eq)

lemma run_batches_counts:
  assumes "\<forall>k < length bs. is_Gathered (benv (j + k))"
      and "\<forall>b \<in> set bs. length b = n \<and> (\<forall>p \<in> set b. fs w p \<noteq> None)"
  shows "\<exists>self' w'. run_batches benv j bs (self, w) = (None, self', w')
           \<and> length (sent w') = length (sent w) + n * length bs
           \<and> length (metrics self') + failed_requests w'
               = length (metrics self) + failed_requests w + n * length bs"
  using assms
proof (induction bs arbitrary: j self w)
  case Nil
  then show ?case by simp
next
  case (Cons b bs)
  from Cons.prems(1) have "is_Gathered (benv (j + 0))" by blast
  then obtain renv where renv: "benv j = Gathered renv"
    by (cases "benv j") simp_all
  let ?outs = "process_batch (base_url self) (fs w) b renv"
  let ?self1 = "self\<lparr>metrics := metrics self @ successes (map snd ?outs)\<rparr>"
  let ?w1 = "w\<lparr>sent := sent w @ List.map_filter fst ?outs,
               logged := logged w @ map Error_processing_failed (failures (map snd ?outs))\<rparr>"
  have step: "run_batches benv j (b # bs) (self, w) = run_batches benv (Suc j) bs (?self1, ?w1)"
    using renv run_batches_Gathered [of benv j renv b bs self w] by simp
  have b: "length b = n" "\<forall>p \<in> set b. fs w p \<noteq> None"
    using Cons.prems(2) by simp_all
  have g: "\<forall>k < length bs. is_Gathered (benv (Suc j + k))"
    using Cons.prems(1) by (metis add_Suc_shift length_Cons Suc_less_eq)
  have f: "\<forall>b \<in> set bs. length b = n \<and> (\<forall>p \<in> set b. fs ?w1 p \<noteq> None)"
    using Cons.prems(2) by simp
  from Cons.IH [OF g f, of ?self1] obtain self' w' where
    r: "run_batches benv (Suc j) bs (?self1, ?w1) = (None, self', w')"
       "length (sent w') = length (sent ?w1) + n * length bs"
       "length (metrics self') + failed_requests w'
          = length (metrics ?self1) + failed_requests ?w1 + n * length bs"
    by blast
  have s: "length (sent ?w1) = length (sent w) + n"
    using process_batch_posts_all [OF b(2)] b(1) by simp
  have "failed_requests ?w1 = failed_requests w + length (failures (map snd ?outs))"
    by (simp add: failed_requests_def)
  moreover have "length (successes (map snd ?outs)) + length (failures (map snd ?outs)) = n"
    using length_successes_failures [of "map snd ?outs"] b(1) by (simp add: length_process_batch)
  ultimately have m: "length (metrics ?self1) + failed_requests ?w1
      = length (metrics self) + failed_requests w + n"
    by simp
  show ?case
    using step r s m by (simp add: algebra_simps)
qed

lemma session_counts:
  assumes "\<forall>j < nat (documents_per_batch self). is_Gathered (benv j)"
  shows "\<exists>self' w'. run_concurrent_session rnd benv (self, w) = (None, self', w')
           \<and> length (sent w') = length (sent w) + nat (documents_per_batch self) * 5 * 2
           \<and> length (metrics self') + failed_requests w'
               = length (metrics self) + failed_requests w + nat (documents_per_batch self) * 5 * 2"
proof -
  let ?w1 = "snd (create_test_files rnd w)"
  let ?bs = "make_batches self corpus_files"
  have run: "run_concurrent_session rnd benv (self, w) = run_batches benv 0 ?bs (self, ?w1)"
    using create_test_files_files [of rnd w]
    by (simp add: run_concurrent_session_def split_beta)
  have len: "length ?bs = nat (documents_per_batch self)"
    by (simp add: make_batches_def)
  have g: "\<forall>k < length ?bs. is_Gathered (benv (0 + k))"
    using assms len by simp
  have f: "\<forall>b \<in> set ?bs. length b = 10 \<and> (\<forall>p \<in> set b. fs ?w1 p \<noteq> None)"
    using corpus_files_written [of _ rnd w]
    by (auto simp: make_batches_def corpus_files_eq)
  from run_batches_counts [OF g f, of self] show ?thesis
    unfolding run len by (simp add: create_test_files_frame algebra_simps)
qed

text \<open>
  Claim C1, as stated, fails for a negative \<open>documents_per_batch\<close> (the command line
  accepts any integer): \<^verbatim>\<open>range\<close> is then empty and the session issues no
  request, while \<open>B \<times> K \<times> R\<close> is negative.
\<close>

theorem negative_batch_count_counterexample:
  "int (length (sent (snd (snd (run_concurrent_session zero_tapes all_good
                                  (init example_url 1 (- 1) 60, empty_world))))))
     \<noteq> documents_per_batch (init example_url 1 (- 1) 60) * 5 * 2"
  using session_counts [of "init example_url 1 (- 1) 60" all_good zero_tapes empty_world]
  by (auto simp: init_def empty_world_def)

text \<open>
  Claim C1, amended. A session in which every batch returns from its gather (no
  exception comes out of the \<^verbatim>\<open>await\<close>) ends normally, posts exactly
  \<open>max B 0 \<times> 5 \<times> 2\<close> requests, and the records it appends plus the failures it logs
  are as many: \<open>B \<times> K \<times> R\<close> for \<open>B \<ge> 0\<close>, none for \<open>B < 0\<close>.
\<close>

theorem session_request_count:
  assumes "\<forall>j < nat (documents_per_batch self). is_Gathered (benv j)"
  shows "\<exists>self' w'. run_concurrent_session rnd benv (self, w) = (None, self', w')
           \<and> length (sent w') = length (sent w) + nat (documents_per_batch self) * 5 * 2
           \<and> length (metrics self') + failed_requests w'
               = length (metrics self) + failed_requests w + nat (documents_per_batch self) * 5 * 2"
  using assms by (rule session_counts)

theorem session_request_count_witness:
  "is_Gathered (all_good 0) \<and> is_Gathered (all_good 1)
   \<and> nat (documents_per_batch (init example_url 1 2 60)) = 2
   \<and> (\<exists>self' w'. run_concurrent_session zero_tapes all_good (init example_url 1 2 60, empty_world)
                     = (None, self', w')
          \<and> length (sent w') = 20
          \<and> length (metrics self') + failed_requests w' = 20)"
proof -
  have g: "\<forall>j < nat (documents_per_batch (init example_url 1 2 60)). is_Gathered (all_good j)"
    by (simp add: all_good_def)
  have "is_Gathered (all_good 0) \<and> is_Gathered (all_good 1)"
    by (simp add: all_good_def)
  then show ?thesis
    using session_request_count [OF g, of zero_tapes empty_world]
    by (simp add: init_def empty_world_def failed_requests_def)
qed

text \<open>
  Claim C4. In a gathered batch there is one outcome per document, each the outcome of
  its own request alone: replacing what one request meets (by a failure, say) leaves every
  other outcome of the batch as it was. The session loop then appends every record of the
  batch to \<open>metrics\<close>, logs every failure without recording it, and goes on with the
  remaining batches.
\<close>

theorem batch_failure_isolation:
  assumes "benv j = Gathered renv"
      and "outs = process_batch (base_url self) (fs w) batch_files renv"
  shows "length outs = length batch_files
       \<and> (\<forall>k < length batch_files.
             outs ! k = process_document (base_url self) (fs w) (batch_files ! k) (renv k))
       \<and> (\<forall>i other. \<forall>k < length batch_files. k \<noteq> i \<longrightarrow>
             process_batch (base_url self) (fs w) batch_files (renv(i := other)) ! k = outs ! k)
       \<and> run_batches benv j (batch_files # rest) (self, w) =
           run_batches benv (Suc j) rest
             (self\<lparr>metrics := metrics self @ successes (map snd outs)\<rparr>,
              w\<lparr>sent := sent w @ List.map_filter fst outs,
                logged := logged w @ map Error_processing_failed (failures (map snd outs))\<rparr>)"
  using assms(1) run_batches_Gathered [of benv j renv batch_files rest self w]
  by (simp add: assms(2) length_process_batch nth_process_batch)

theorem batch_failure_isolation_witness:
  "failing_batch 0 = Gathered one_failure
   \<and> map (\<lambda>r. isl (snd r))
       (process_batch example_url example_files
          [''data/loadtest_doc_0_1kb.txt'', ''data/loadtest_doc_0_1kb.txt''] one_failure)
       = [True, False]
   \<and> fst (run_batches failing_batch 0
             [[''data/loadtest_doc_0_1kb.txt'', ''data/loadtest_doc_0_1kb.txt'']]
             (init example_url 1 1 60, empty_world\<lparr>fs := example_files\<rparr>)) = None
   \<and> length (metrics (fst (snd (run_batches failing_batch 0
             [[''data/loadtest_doc_0_1kb.txt'', ''data/loadtest_doc_0_1kb.txt'']]
             (init example_url 1 1 60, empty_world\<lparr>fs := example_files\<rparr>))))) = 1
   \<and> logged (snd (snd (run_batches failing_batch 0
             [[''data/loadtest_doc_0_1kb.txt'', ''data/loadtest_doc_0_1kb.txt'']]
             (init example_url 1 1 60, empty_world\<lparr>fs := example_files\<rparr>))))
       = [Error_processing_failed (ClientResponseError 500)]"
  using batch_failure_isolation
    [of failing_batch 0 one_failure
        "process_batch example_url example_files
           [''data/loadtest_doc_0_1kb.txt'', ''data/loadtest_doc_0_1kb.txt''] one_failure"
        "init example_url 1 1 60" "empty_world\<lparr>fs := example_files\<rparr>"
        "[''data/loadtest_doc_0_1kb.txt'', ''data/loadtest_doc_0_1kb.txt'']" "[]"]
  by (simp add: failing_batch_def one_failure_def init_def empty_world_def example_files_def
      process_batch_def process_document_def raise_for_status_def server_error_reply_def
      good_reply_def successes_def failures_def Let_def upload_request_def throughput_def
      py_truediv_def)


text \<open>
  Claim C3 fails on the code: \<^verbatim>\<open>operation_id\<close> is the start time truncated to
  whole milliseconds. Two requests of one batch that start a tenth of a millisecond apart
  and both succeed get the same identifier, and the session appends both records to
  \<open>metrics\<close>.
\<close>

theorem operation_id_collision:
  "start_time (same_millisecond 0) \<noteq> start_time (same_millisecond 1)
   \<and> map (\<lambda>r. map_sum id operation_id (snd r))
       (process_batch example_url example_files
          [''data/loadtest_doc_0_1kb.txt'', ''data/loadtest_doc_0_1kb.txt''] same_millisecond)
     = [Inr ''op_1700000000000'', Inr ''op_1700000000000'']
   \<and> map operation_id
       (metrics (fst (snd (run_batches same_millisecond_batch 0
          [[''data/loadtest_doc_0_1kb.txt'', ''data/loadtest_doc_0_1kb.txt'']]
          (init example_url 1 1 60, empty_world\<lparr>fs := example_files\<rparr>)))))
     = [''op_1700000000000'', ''op_1700000000000'']"
  by (simp add: process_batch_def process_document_def example_files_def same_millisecond_def
      same_millisecond_batch_def init_def empty_world_def upload_request_def
      raise_for_status_def Let_def py_int_def str_int_def string_of_nat.simps
      throughput_def py_truediv_def)


section \<open>Properties of aggregation and export\<close>

lemma number_error: "number v = Inl e \<Longrightarrow> e = TypeError"
  by (cases v) (auto split: if_splits)

lemma numbers_error: "numbers vs = Inl e \<Longrightarrow> e = TypeError"
  by (induction vs arbitrary: e) (auto split: sum.splits dest: number_error)

lemma numbers_length: "numbers vs = Inr xs \<Longrightarrow> length xs = length vs"
  by (induction vs arbitrary: xs) (auto split: sum.splits)

lemma stats_line_nonempty: "xs \<noteq> [] \<Longrightarrow> \<exists>item. stats_line label xs = Inr item"
  by (cases xs) (simp_all add: stats_line_def mean_def py_min_def py_max_def)

lemma stats_line_json_error:
  "vs \<noteq> [] \<Longrightarrow> stats_line_json label vs = Inl e \<Longrightarrow> e = TypeError"
proof (cases "numbers vs")
  case (Inl e')
  assume "stats_line_json label vs = Inl e"
  with Inl show ?thesis by (simp add: stats_line_json_def numbers_error)
next
  case (Inr xs)
  assume "vs \<noteq> []" "stats_line_json label vs = Inl e"
  moreover from Inr \<open>vs \<noteq> []\<close> have "xs \<noteq> []" by (auto dest: numbers_length)
  ultimately show ?thesis
    using Inr stats_line_nonempty [of xs label] by (auto simp: stats_line_json_def)
qed

lemma success_rate_line_error:
  "ms \<noteq> [] \<Longrightarrow> success_rate_line ms = Inl e \<Longrightarrow> e = TypeError"
  by (auto simp: success_rate_line_def split: sum.splits if_splits dest: numbers_error)

lemma report_lines_error:
  assumes "metrics self \<noteq> []" and "Inl e \<in> set (report_lines self elapsed)"
  shows "e = TypeError"
proof -
  have ne: "map f (metrics self) \<noteq> []" for f :: "ProcessingMetrics \<Rightarrow> 'b"
    using assms(1) by simp
  from assms(2) consider
      "stats_line ''Total Time'' (map total_time (metrics self)) = Inl e"
    | "stats_line_json ''Processing Time'' (map processing_time (metrics self)) = Inl e"
    | "stats_line_json ''Chunking Time'' (map chunking_time (metrics self)) = Inl e"
    | "stats_line ''Throughput'' (map throughput_per_second (metrics self)) = Inl e"
    | "stats_line_json ''Total Chunks'' (map total_chunks (metrics self)) = Inl e"
    | "stats_line_json ''Successful Chunks'' (map successful_chunks (metrics self)) = Inl e"
    | "success_rate_line (metrics self) = Inl e"
    by (auto simp: report_lines_def)
  then show ?thesis
  proof cases
    case 1
    with stats_line_nonempty [of "map total_time (metrics self)" "''Total Time''"] ne
    show ?thesis by auto
  next
    case 2
    with stats_line_json_error [OF ne] show ?thesis by blast
  next
    case 3
    with stats_line_json_error [OF ne] show ?thesis by blast
  next
    case 4
    with stats_line_nonempty [of "map throughput_per_second (metrics self)" "''Throughput''"] ne
    show ?thesis by auto
  next
    case 5
    with stats_line_json_error [OF ne] show ?thesis by blast
  next
    case 6
    with stats_line_json_error [OF ne] show ?thesis by blast
  next
    case 7
    with success_rate_line_error [OF assms(1)] show ?thesis by blast
  qed
qed

lemma print_lines_error: "fst (print_lines items w) = Some e \<Longrightarrow> Inl e \<in> set items"
  by (induction items w rule: print_lines.induct) auto

lemma print_lines_frame:
  "fs (snd (print_lines items w)) = fs w
   \<and> logged (snd (print_lines items w)) = logged w
   \<and> sent (snd (print_lines items w)) = sent w"
  by (induction items w rule: print_lines.induct) auto

lemma print_results_empty:
  "metrics self = [] \<Longrightarrow>
   print_results env elapsed self w = (None, w\<lparr>logged := logged w @ [Error_no_metrics_collected]\<rparr>)"
  by (simp add: print_results_def)

lemma print_results_error:
  assumes "fst (print_results env elapsed self w) = Some e"
  shows "e = TypeError \<and> metrics self \<noteq> []"
proof (cases "metrics self = []")
  case True
  with assms show ?thesis by (simp add: print_results_def)
next
  case False
  with assms have "fst (print_lines (report_lines self elapsed) w) = Some e"
    by (auto simp: print_results_def split: prod.splits option.splits)
  then have "Inl e \<in> set (report_lines self elapsed)"
    by (rule print_lines_error)
  with False show ?thesis
    by (simp add: report_lines_error)
qed

lemma print_results_stdout:
  "stdout (snd (print_results env elapsed self w)) \<noteq> stdout w \<Longrightarrow> metrics self \<noteq> []"
  by (auto simp: print_results_def)

text \<open>
  Claim C9. With an empty \<open>metrics\<close> list \<^verbatim>\<open>print_results\<close> only logs that
  no metrics were collected and returns: nothing is printed and nothing is computed. Any
  output at all implies a non-empty list, and whatever the list holds,
  \<^verbatim>\<open>print_results\<close> never raises the errors that a mean, a minimum, a maximum or
  a rate over an empty list would raise.
\<close>

theorem print_results_no_data:
  "(metrics self = [] \<longrightarrow>
      print_results env elapsed self w
        = (None, w\<lparr>logged := logged w @ [Error_no_metrics_collected]\<rparr>))
   \<and> (stdout (snd (print_results env elapsed self w)) \<noteq> stdout w \<longrightarrow> metrics self \<noteq> [])
   \<and> fst (print_results env elapsed self w)
        \<notin> {Some StatisticsError, Some ValueError, Some ZeroDivisionError}"
proof (intro conjI impI)
  assume "metrics self = []"
  then show "print_results env elapsed self w
      = (None, w\<lparr>logged := logged w @ [Error_no_metrics_collected]\<rparr>)"
    by (rule print_results_empty)
next
  assume "stdout (snd (print_results env elapsed self w)) \<noteq> stdout w"
  then show "metrics self \<noteq> []"
    by (rule print_results_stdout)
next
  have "e = TypeError" if "fst (print_results env elapsed self w) = Some e" for e
    using print_results_error [OF that] by simp
  then show "fst (print_results env elapsed self w)
      \<notin> {Some StatisticsError, Some ValueError, Some ZeroDivisionError}"
    by auto
qed

theorem print_results_no_data_witness:
  "metrics (init example_url 1 1 60) = []
   \<and> print_results failing_service 5 (init example_url 1 1 60) empty_world
       = (None, empty_world\<lparr>logged := [Error_no_metrics_collected]\<rparr>)
   \<and> stdout (snd (print_results failing_service 5
                    ((init example_url 1 1 60)\<lparr>metrics := [one_record]\<rparr>) empty_world))
       \<noteq> stdout empty_world
   \<and> metrics ((init example_url 1 1 60)\<lparr>metrics := [one_record]\<rparr>) \<noteq> []"
proof -
  have "stdout (snd (print_results failing_service 5
                    ((init example_url 1 1 60)\<lparr>metrics := [one_record]\<rparr>) empty_world))
       \<noteq> stdout empty_world"
    by (simp add: print_results_def report_lines_def init_def one_record_def empty_world_def
        stats_line_def stats_line_json_def mean_def py_min_def py_max_def success_rate_line_def
        export_results_to_csv_def Let_def)
  then show ?thesis
    using print_results_no_data [of "init example_url 1 1 60" failing_service 5 empty_world]
      print_results_no_data [of "(init example_url 1 1 60)\<lparr>metrics := [one_record]\<rparr>"
        failing_service 5 empty_world]
    by (simp add: init_def empty_world_def)
qed


section \<open>Properties of the run\<close>

lemma run_batches_frame:
  "fs (snd (snd (run_batches benv j bs (self, w)))) = fs w
   \<and> stdout (snd (snd (run_batches benv j bs (self, w)))) = stdout w
   \<and> base_url (fst (snd (run_batches benv j bs (self, w)))) = base_url self
   \<and> documents_per_batch (fst (snd (run_batches benv j bs (self, w)))) = documents_per_batch self
   \<and> (\<forall>e. fst (run_batches benv j bs (self, w)) = Some e \<longrightarrow> \<not> is_Exception e)"
proof (induction bs arbitrary: j self w)
  case Nil
  show ?case by simp
next
  case (Cons b bs)
  show ?case
  proof (cases "benv j")
    case (Gathered renv)
    show ?thesis
      unfolding run_batches_Gathered [of benv j renv b bs self w, OF Gathered]
      using Cons.IH by simp
  next
    case (Raised e k)
    then show ?thesis
      using Cons.IH by (simp add: Let_def)
  qed
qed

lemma run_batches_interrupted:
  assumes "\<forall>i < length pre. is_Gathered (benv (j + i))"
      and "benv (j + length pre) = Raised KeyboardInterrupt k"
  shows "run_batches benv j (pre @ batch_files # rest) (self, w) =
     (Some KeyboardInterrupt,
      fst (snd (run_batches benv j pre (self, w))),
      (snd (snd (run_batches benv j pre (self, w))))
        \<lparr>sent := sent (snd (snd (run_batches benv j pre (self, w))))
           @ List.map_filter (upload_request (base_url self) (fs w)) (take k batch_files)\<rparr>)"
  using assms
proof (induction pre arbitrary: j self w)
  case Nil
  then show ?case by (simp add: Let_def)
next
  case (Cons b pre)
  from Cons.prems(1) have "is_Gathered (benv (j + 0))" by blast
  then obtain renv where renv: "benv j = Gathered renv"
    by (cases "benv j") simp_all
  let ?outs = "process_batch (base_url self) (fs w) b renv"
  let ?self1 = "self\<lparr>metrics := metrics self @ successes (map snd ?outs)\<rparr>"
  let ?w1 = "w\<lparr>sent := sent w @ List.map_filter fst ?outs,
               logged := logged w @ map Error_processing_failed (failures (map snd ?outs))\<rparr>"
  have step: "run_batches benv j (b # bs) (self, w) = run_batches benv (Suc j) bs (?self1, ?w1)"
    for bs
    using renv run_batches_Gathered [of benv j renv b bs self w] by simp
  have g: "\<forall>i < length pre. is_Gathered (benv (Suc j + i))"
    using Cons.prems(1) by (metis add_Suc_shift length_Cons Suc_less_eq)
  have r: "benv (Suc j + length pre) = Raised KeyboardInterrupt k"
    using Cons.prems(2) by simp
  have "run_batches benv j ((b # pre) @ batch_files # rest) (self, w)
      = run_batches benv (Suc j) (pre @ batch_files # rest) (?self1, ?w1)"
    using step [of "pre @ batch_files # rest"] by simp
  also have "\<dots> = (Some KeyboardInterrupt,
      fst (snd (run_batches benv (Suc j) pre (?self1, ?w1))),
      (snd (snd (run_batches benv (Suc j) pre (?self1, ?w1))))
        \<lparr>sent := sent (snd (snd (run_batches benv (Suc j) pre (?self1, ?w1))))
           @ List.map_filter (upload_request (base_url ?self1) (fs ?w1)) (take k batch_files)\<rparr>)"
    by (rule Cons.IH [OF g r])
  also have "\<dots> = (Some KeyboardInterrupt,
      fst (snd (run_batches benv j (b # pre) (self, w))),
      (snd (snd (run_batches benv j (b # pre) (self, w))))
        \<lparr>sent := sent (snd (snd (run_batches benv j (b # pre) (self, w))))
           @ List.map_filter (upload_request (base_url self) (fs w)) (take k batch_files)\<rparr>)"
    unfolding step [of pre] by simp
  finally show ?case .
qed

lemma run_sessions_frame:
  "fs (snd (snd (run_sessions benv sessions (self, w)))) = fs w
   \<and> stdout (snd (snd (run_sessions benv sessions (self, w)))) = stdout w
   \<and> base_url (fst (snd (run_sessions benv sessions (self, w)))) = base_url self
   \<and> documents_per_batch (fst (snd (run_sessions benv sessions (self, w)))) = documents_per_batch self
   \<and> (\<forall>e. fst (run_sessions benv sessions (self, w)) = Some e \<longrightarrow> \<not> is_Exception e)"
proof (induction sessions arbitrary: self w)
  case Nil
  show ?case by simp
next
  case (Cons session sessions)
  obtain s test_files where session: "session = (s, test_files)"
    by (cases session)
  obtain st self1 w1 where
    r: "run_batches (benv s) 0 (make_batches self test_files) (self, w) = (st, self1, w1)"
    by (cases "run_batches (benv s) 0 (make_batches self test_files) (self, w)")
  have f: "fs w1 = fs w" "stdout w1 = stdout w" "base_url self1 = base_url self"
    "documents_per_batch self1 = documents_per_batch self"
    "\<forall>e. st = Some e \<longrightarrow> \<not> is_Exception e"
    using run_batches_frame [of "benv s" 0 "make_batches self test_files" self w] r
    by simp_all
  show ?case
  proof (cases st)
    case None
    with r session f Cons.IH [of self1 w1] show ?thesis by simp
  next
    case (Some e)
    with r session f Cons.IH [of self1 w1] show ?thesis by simp
  qed
qed

lemma prepare_sessions_frame:
  "stdout (snd (prepare_sessions tp ss w)) = stdout w
   \<and> sent (snd (prepare_sessions tp ss w)) = sent w
   \<and> (\<forall>name. name \<notin> set corpus_files \<longrightarrow> fs (snd (prepare_sessions tp ss w)) name = fs w name)
   \<and> fst (prepare_sessions tp ss w) = map (\<lambda>s. (s, corpus_files)) ss"
proof (induction ss arbitrary: w)
  case Nil
  show ?case by simp
next
  case (Cons s ss)
  have "\<forall>name. name \<notin> set corpus_files \<longrightarrow>
      fs (snd (create_test_files (tp s) w)) name = fs w name"
    by (simp add: create_test_files_fs corpus_files_eq)
  with Cons.IH [of "snd (create_test_files (tp s) w)"] show ?case
    by (simp add: split_beta create_test_files_frame create_test_files_files)
qed

lemma results_file_not_in_corpus: "results_file_name t \<notin> set corpus_files"
  by (simp add: corpus_files_eq results_file_name_def)

lemma run_load_test_unreported:
  assumes "run_load_test env (self, w) = (st, self', w')"
      and "st = Some KeyboardInterrupt \<or> metrics self' = []"
  shows "stdout w' = stdout w
       \<and> (\<forall>name. name \<notin> set corpus_files \<longrightarrow> fs w' name = fs w name)"
proof -
  define w0 where "w0 = w\<lparr>logged := logged w @
      [Info_starting_load_test (num_concurrent self),
       Info_test_duration (test_duration_seconds self)]\<rparr>"
  define prep where "prep = prepare_sessions (tape env) [0..<nat (num_concurrent self)] w0"
  define ran where "ran = run_sessions (batch_envs env) (fst prep) (self, snd prep)"
  have p1: "stdout (snd prep) = stdout w"
    "\<forall>name. name \<notin> set corpus_files \<longrightarrow> fs (snd prep) name = fs w name"
    using prepare_sessions_frame [of "tape env" "[0..<nat (num_concurrent self)]" w0]
    by (simp_all add: prep_def w0_def)
  have p2: "stdout (snd (snd ran)) = stdout w"
    "\<forall>name. name \<notin> set corpus_files \<longrightarrow> fs (snd (snd ran)) name = fs w name"
    "\<forall>e. fst ran = Some e \<longrightarrow> \<not> is_Exception e"
    using run_sessions_frame [of "batch_envs env" "fst prep" self "snd prep"] p1
    by (simp_all add: ran_def)
  show ?thesis
  proof (cases "fst ran")
    case (Some e)
    with assms(1) have "w' = snd (snd ran)"
      by (simp add: run_load_test_def Let_def split_beta ran_def prep_def w0_def
          split: prod.splits option.splits)
    with p2 show ?thesis by simp
  next
    case None
    with assms(1) have pr:
      "print_results env (clock_end env - clock_start env) (fst (snd ran)) (snd (snd ran)) = (st, w')"
      "self' = fst (snd ran)"
      by (auto simp: run_load_test_def Let_def split_beta ran_def prep_def w0_def
          split: prod.splits option.splits)
    from pr(1) print_results_error [of env "clock_end env - clock_start env" self' "snd (snd ran)"]
      assms(2) pr(2)
    have "metrics self' = []" by auto
    with pr show ?thesis
      using p2 by (auto simp: print_results_def)
  qed
qed

lemma main_eq:
  assumes "run_load_test env (init (arg_url a) (arg_concurrent a) (arg_batch_size a) (arg_duration a), w)
             = (st, self', w')"
  shows "main a env w =
     (case st of
        None \<Rightarrow> (0, self', w')
      | Some e \<Rightarrow>
          if e = KeyboardInterrupt
          then (0, self', w'\<lparr>logged := logged w' @ [Info_interrupted_by_user]\<rparr>)
          else (1, self', w'\<lparr>logged := logged w' @ [Error_load_test_failed e]\<rparr>))"
  using assms by (simp add: main_def Let_def split: option.splits exn.splits)

lemma failing_service_run:
  "metrics (fst (snd (main example_args failing_service empty_world))) = []"
  by (simp add: main_def run_load_test_def Let_def split_beta init_def example_args_def
      failing_service_def create_test_files_files corpus_files_eq create_test_files_fs
      create_test_files_frame make_batches_def process_batch_def process_document_def
      raise_for_status_def server_error_reply_def print_results_def eval_nat_numeral
      upload_request_def)

lemma interrupted_service_run:
  "fst (run_load_test interrupted_service (init example_url 1 2 60, empty_world))
     = Some KeyboardInterrupt
   \<and> length (metrics (fst (snd (run_load_test interrupted_service
                                  (init example_url 1 2 60, empty_world))))) = 10
   \<and> length (sent (snd (snd (run_load_test interrupted_service
                                  (init example_url 1 2 60, empty_world))))) = 20"
  by (simp add: run_load_test_def Let_def split_beta init_def
      interrupted_service_def create_test_files_files corpus_files_eq create_test_files_fs
      create_test_files_frame make_batches_def process_batch_def process_document_def
      raise_for_status_def good_reply_def eval_nat_numeral upload_request_def
      throughput_def py_truediv_def empty_world_def)

lemma main_unreported:
  assumes "fst (run_load_test env (init (arg_url a) (arg_concurrent a) (arg_batch_size a)
                                    (arg_duration a), w)) = Some KeyboardInterrupt
           \<or> metrics (fst (snd (main a env w))) = []"
  shows "stdout (snd (snd (main a env w))) = stdout w
       \<and> (\<forall>t. fs (snd (snd (main a env w))) (results_file_name t) = fs w (results_file_name t))"
proof -
  obtain st self' w' where
    r: "run_load_test env (init (arg_url a) (arg_concurrent a) (arg_batch_size a) (arg_duration a), w)
          = (st, self', w')"
    by (metis prod_cases3)
  have m: "fst (snd (main a env w)) = self'" "stdout (snd (snd (main a env w))) = stdout w'"
    "fs (snd (snd (main a env w))) = fs w'"
    by (simp_all add: main_eq [OF r] split: option.splits)
  from assms r m(1) have "st = Some KeyboardInterrupt \<or> metrics self' = []"
    by auto
  from run_load_test_unreported [OF r this] show ?thesis
    by (simp add: m results_file_not_in_corpus)
qed

text \<open>
  Claim C5, as stated, fails: in a run of one session with two batches, interrupted while
  the ten requests of the second batch are in flight, ten records have been collected,
  yet nothing is printed and no results file exists when the process ends.
\<close>

theorem interrupt_discards_partial_results_counterexample:
  "fst (run_load_test interrupted_service (init example_url 1 2 60, empty_world))
     = Some KeyboardInterrupt
   \<and> length (metrics (fst (snd (main example_args interrupted_service empty_world)))) = 10
   \<and> length (sent (snd (snd (main example_args interrupted_service empty_world)))) = 20
   \<and> stdout (snd (snd (main example_args interrupted_service empty_world))) = []
   \<and> fs (snd (snd (main example_args interrupted_service empty_world)))
        (results_file_name (clock_export interrupted_service)) = None"
proof -
  obtain st self' w' where
    r: "run_load_test interrupted_service (init example_url 1 2 60, empty_world) = (st, self', w')"
    by (metis prod_cases3)
  have a: "arg_url example_args = example_url" "arg_concurrent example_args = 1"
    "arg_batch_size example_args = 2" "arg_duration example_args = 60"
    by (simp_all add: example_args_def)
  from r interrupted_service_run have st: "st = Some KeyboardInterrupt"
    "length (metrics self') = 10" "length (sent w') = 20"
    by simp_all
  have "fst (snd (main example_args interrupted_service empty_world)) = self'"
    "sent (snd (snd (main example_args interrupted_service empty_world))) = sent w'"
    using main_eq [of interrupted_service example_args empty_world st self' w'] r
    by (simp_all add: a split: option.splits)
  moreover have "stdout (snd (snd (main example_args interrupted_service empty_world)))
        = stdout empty_world
      \<and> (\<forall>t. fs (snd (snd (main example_args interrupted_service empty_world)))
                 (results_file_name t) = fs empty_world (results_file_name t))"
    using main_unreported [of interrupted_service example_args empty_world] r st(1)
    by (simp add: a)
  ultimately show ?thesis
    using r st by (simp add: empty_world_def)
qed

text \<open>
  Claim C5, amended. When a \<open>KeyboardInterrupt\<close> ends the run, \<^verbatim>\<open>main\<close>
  returns exit code 0 after logging the interruption, and the partial results are neither
  summarised nor exported: the console is as it was and no results file is written. The
  batch loop that meets the interrupt stops there: it keeps what the completed batches
  collected, has posted only the requests of the interrupted batch that had already
  started, collects nothing of that batch, and issues no request of any later batch.
\<close>

theorem interrupted_run_is_not_reported:
  assumes "fst (run_load_test env (init (arg_url a) (arg_concurrent a) (arg_batch_size a)
                                    (arg_duration a), w)) = Some KeyboardInterrupt"
  shows "fst (main a env w) = 0
       \<and> stdout (snd (snd (main a env w))) = stdout w
       \<and> (\<forall>t. fs (snd (snd (main a env w))) (results_file_name t) = fs w (results_file_name t))
       \<and> logged (snd (snd (main a env w)))
           = logged (snd (snd (run_load_test env
                (init (arg_url a) (arg_concurrent a) (arg_batch_size a) (arg_duration a), w))))
             @ [Info_interrupted_by_user]
       \<and> sent (snd (snd (main a env w)))
           = sent (snd (snd (run_load_test env
                (init (arg_url a) (arg_concurrent a) (arg_batch_size a) (arg_duration a), w))))
       \<and> (\<forall>benv j k pre batch_files rest self0 w0.
             (\<forall>i < length pre. is_Gathered (benv (j + i)))
             \<and> benv (j + length pre) = Raised KeyboardInterrupt k \<longrightarrow>
             run_batches benv j (pre @ batch_files # rest) (self0, w0)
               = (Some KeyboardInterrupt,
                  fst (snd (run_batches benv j pre (self0, w0))),
                  (snd (snd (run_batches benv j pre (self0, w0))))
                    \<lparr>sent := sent (snd (snd (run_batches benv j pre (self0, w0))))
                       @ List.map_filter (upload_request (base_url self0) (fs w0))
                           (take k batch_files)\<rparr>))"
proof -
  obtain st self' w' where
    r: "run_load_test env (init (arg_url a) (arg_concurrent a) (arg_batch_size a) (arg_duration a), w)
          = (st, self', w')"
    by (metis prod_cases3)
  with assms have st: "st = Some KeyboardInterrupt" by simp
  have "main a env w = (0, self', w'\<lparr>logged := logged w' @ [Info_interrupted_by_user]\<rparr>)"
    using main_eq [OF r] st by simp
  with r main_unreported [of env a w] assms show ?thesis
    by (simp add: run_batches_interrupted)
qed

theorem interrupted_run_is_not_reported_witness:
  "fst (run_load_test interrupted_service
          (init (arg_url example_args) (arg_concurrent example_args)
                (arg_batch_size example_args) (arg_duration example_args), empty_world))
     = Some KeyboardInterrupt
   \<and> is_Gathered (batch_envs interrupted_service 0 0)
   \<and> batch_envs interrupted_service 0 1 = Raised KeyboardInterrupt 10
   \<and> fst (main example_args interrupted_service empty_world) = 0
   \<and> stdout (snd (snd (main example_args interrupted_service empty_world))) = []
   \<and> fst (run_batches (batch_envs interrupted_service 0) 0
            ([corpus_files @ corpus_files] @ (corpus_files @ corpus_files) # [])
            (init example_url 1 2 60, empty_world))
       = Some KeyboardInterrupt"
proof -
  have i: "fst (run_load_test interrupted_service
          (init (arg_url example_args) (arg_concurrent example_args)
                (arg_batch_size example_args) (arg_duration example_args), empty_world))
     = Some KeyboardInterrupt"
    using interrupted_service_run by (simp add: example_args_def)
  have g: "is_Gathered (batch_envs interrupted_service 0 0)"
    "batch_envs interrupted_service 0 1 = Raised KeyboardInterrupt 10"
    by (simp_all add: interrupted_service_def)
  from interrupted_run_is_not_reported [OF i]
  have m: "fst (main example_args interrupted_service empty_world) = 0"
    "stdout (snd (snd (main example_args interrupted_service empty_world))) = stdout empty_world"
    and loop: "\<And>benv j k pre batch_files rest self0 w0.
       (\<forall>i < length pre. is_Gathered (benv (j + i)))
       \<and> benv (j + length pre) = Raised KeyboardInterrupt k \<Longrightarrow>
       fst (run_batches benv j (pre @ batch_files # rest) (self0, w0)) = Some KeyboardInterrupt"
    by simp_all
  have "fst (run_batches (batch_envs interrupted_service 0) 0
            ([corpus_files @ corpus_files] @ (corpus_files @ corpus_files) # [])
            (init example_url 1 2 60, empty_world))
       = Some KeyboardInterrupt"
    using g by (intro loop [of "[corpus_files @ corpus_files]" "batch_envs interrupted_service 0" 0 10])
      simp
  with i g m show ?thesis
    by (simp add: empty_world_def)
qed

text \<open>
  Claim C10. If \<open>metrics\<close> is empty when the program ends, nothing was printed and
  every results file name holds what it held before the run: the exporter was not called.
  In \<^verbatim>\<open>print_results\<close> itself an empty list leaves files and console untouched.
\<close>

theorem no_results_file_without_metrics:
  assumes "metrics (fst (snd (main a env w))) = []"
  shows "stdout (snd (snd (main a env w))) = stdout w
       \<and> (\<forall>t. fs (snd (snd (main a env w))) (results_file_name t) = fs w (results_file_name t))
       \<and> (\<forall>self0 w0 elapsed. metrics self0 = [] \<longrightarrow>
             fs (snd (print_results env elapsed self0 w0)) = fs w0
             \<and> stdout (snd (print_results env elapsed self0 w0)) = stdout w0)"
  using main_unreported [of env a w] assms
  by (simp add: print_results_empty)

theorem no_results_file_without_metrics_witness:
  "metrics (fst (snd (main example_args failing_service empty_world))) = []
   \<and> stdout (snd (snd (main example_args failing_service empty_world))) = []
   \<and> fs (snd (snd (main example_args failing_service empty_world)))
        (results_file_name (clock_export failing_service)) = None"
  using failing_service_run no_results_file_without_metrics [OF failing_service_run]
  by (simp add: empty_world_def)


section \<open>The corpus files are shared by all sessions\<close>

lemma create_test_files_content:
  assumes "i < length sizes"
  shows "fs (snd (create_test_files rnd w)) (corpus_files ! i)
       = Some (create_test_document (rnd i) (sizes ! i))"
proof -
  from assms have "i = 0 \<or> i = 1 \<or> i = 2 \<or> i = 3 \<or> i = 4"
    by (auto simp: sizes_def)
  then show ?thesis
    by (elim disjE) (simp_all add: create_test_files_fs corpus_files_eq sizes_def)
qed

lemma length_corpus_files: "length corpus_files = length sizes"
  by (simp add: corpus_files_def)

lemma prepare_sessions_content:
  assumes "ss \<noteq> []" and "i < length sizes"
  shows "fs (snd (prepare_sessions tp ss w)) (corpus_files ! i)
       = Some (create_test_document (tp (last ss) i) (sizes ! i))"
  using assms(1)
proof (induction ss arbitrary: w)
  case Nil
  then show ?case by simp
next
  case (Cons s ss)
  show ?case
  proof (cases "ss = []")
    case True
    then show ?thesis
      by (simp add: split_beta create_test_files_content [OF assms(2)])
  next
    case False
    with Cons.IH [of "snd (create_test_files (tp s) w)"] show ?thesis
      by (simp add: split_beta)
  qed
qed

lemma process_batch_requests:
  assumes "r \<in> set (List.map_filter fst (process_batch base files ps renv))"
  shows "\<exists>p \<in> set ps. files p = Some (payload r) \<and> file_name r = basename p"
proof -
  from assms obtain out where out: "out \<in> set (process_batch base files ps renv)" "fst out = Some r"
    by (auto simp: List.map_filter_def)
  then obtain k where k: "k < length ps" "out = process_document base files (ps ! k) (renv k)"
    by (auto simp: in_set_conv_nth length_process_batch nth_process_batch)
  with out(2) have "files (ps ! k) = Some (payload r) \<and> file_name r = basename (ps ! k)"
    by (auto simp: process_document_def upload_request_def split: option.splits)
  with k(1) show ?thesis
    by (meson nth_mem)
qed

lemma upload_requests_from:
  assumes "r \<in> set (List.map_filter (upload_request base files) ps)"
  shows "\<exists>p \<in> set ps. files p = Some (payload r) \<and> file_name r = basename p"
proof -
  from assms obtain p where "p \<in> set ps" "upload_request base files p = Some r"
    by (auto simp: List.map_filter_def)
  then show ?thesis
    by (auto simp: upload_request_def split: option.splits)
qed

lemma run_batches_requests:
  assumes "\<forall>b \<in> set bs. set b \<subseteq> P"
  shows "\<exists>new. sent (snd (snd (run_batches benv j bs (self, w)))) = sent w @ new
           \<and> (\<forall>r \<in> set new. \<exists>p \<in> P. fs w p = Some (payload r) \<and> file_name r = basename p)"
  using assms
proof (induction bs arbitrary: j self w)
  case Nil
  show ?case by simp
next
  case (Cons b bs)
  show ?case
  proof (cases "benv j")
    case (Gathered renv)
    let ?outs = "process_batch (base_url self) (fs w) b renv"
    let ?self1 = "self\<lparr>metrics := metrics self @ successes (map snd ?outs)\<rparr>"
    let ?w1 = "w\<lparr>sent := sent w @ List.map_filter fst ?outs,
                 logged := logged w @ map Error_processing_failed (failures (map snd ?outs))\<rparr>"
    have step: "run_batches benv j (b # bs) (self, w) = run_batches benv (Suc j) bs (?self1, ?w1)"
      using Gathered run_batches_Gathered [of benv j renv b bs self w] by simp
    from Cons.prems have "\<forall>b \<in> set bs. set b \<subseteq> P" by simp
    from Cons.IH [OF this, of "Suc j" ?self1 ?w1] obtain new where
      new: "sent (snd (snd (run_batches benv (Suc j) bs (?self1, ?w1)))) = sent ?w1 @ new"
        "\<forall>r \<in> set new. \<exists>p \<in> P. fs ?w1 p = Some (payload r) \<and> file_name r = basename p"
      by blast
    have first: "\<forall>r \<in> set (List.map_filter fst ?outs).
        \<exists>p \<in> P. fs w p = Some (payload r) \<and> file_name r = basename p"
    proof
      fix r assume "r \<in> set (List.map_filter fst ?outs)"
      from process_batch_requests [OF this] obtain p where
        "p \<in> set b" "fs w p = Some (payload r)" "file_name r = basename p"
        by blast
      with Cons.prems show "\<exists>p \<in> P. fs w p = Some (payload r) \<and> file_name r = basename p"
        by auto
    qed
    have "sent (snd (snd (run_batches benv j (b # bs) (self, w))))
        = sent w @ (List.map_filter fst ?outs @ new)"
      using step new(1) by simp
    moreover have "\<forall>r \<in> set (List.map_filter fst ?outs @ new).
        \<exists>p \<in> P. fs w p = Some (payload r) \<and> file_name r = basename p"
      using first new(2) by auto
    ultimately show ?thesis by blast
  next
    case (Raised e k)
    let ?posts = "List.map_filter (upload_request (base_url self) (fs w)) (take k b)"
    let ?w1 = "w\<lparr>sent := sent w @ ?posts\<rparr>"
    have first: "\<forall>r \<in> set ?posts.
        \<exists>p \<in> P. fs w p = Some (payload r) \<and> file_name r = basename p"
    proof
      fix r assume "r \<in> set ?posts"
      from upload_requests_from [OF this] obtain p where
        "p \<in> set (take k b)" "fs w p = Some (payload r)" "file_name r = basename p"
        by blast
      moreover from this(1) have "p \<in> set b" by (rule in_set_takeD)
      ultimately show "\<exists>p \<in> P. fs w p = Some (payload r) \<and> file_name r = basename p"
        using Cons.prems by auto
    qed
    show ?thesis
    proof (cases "is_Exception e")
      case True
      let ?w2 = "?w1\<lparr>logged := logged ?w1 @ [Error_batch_processing_failed e]\<rparr>"
      from Cons.prems have "\<forall>b \<in> set bs. set b \<subseteq> P" by simp
      from Cons.IH [OF this, of "Suc j" self ?w2] obtain new where
        new: "sent (snd (snd (run_batches benv (Suc j) bs (self, ?w2)))) = sent ?w2 @ new"
          "\<forall>r \<in> set new. \<exists>p \<in> P. fs ?w2 p = Some (payload r) \<and> file_name r = basename p"
        by blast
      have "sent (snd (snd (run_batches benv j (b # bs) (self, w)))) = sent w @ (?posts @ new)"
        using Raised True new(1) by (simp add: Let_def)
      moreover have "\<forall>r \<in> set (?posts @ new).
          \<exists>p \<in> P. fs w p = Some (payload r) \<and> file_name r = basename p"
        using first new(2) by auto
      ultimately show ?thesis by blast
    next
      case False
      then have "sent (snd (snd (run_batches benv j (b # bs) (self, w)))) = sent w @ ?posts"
        using Raised by (simp add: Let_def)
      with first show ?thesis by blast
    qed
  qed
qed

lemma run_sessions_requests:
  assumes "\<forall>session \<in> set sessions. set (snd session) \<subseteq> P"
  shows "\<exists>new. sent (snd (snd (run_sessions benv sessions (self, w)))) = sent w @ new
           \<and> (\<forall>r \<in> set new. \<exists>p \<in> P. fs w p = Some (payload r) \<and> file_name r = basename p)"
  using assms
proof (induction sessions arbitrary: self w)
  case Nil
  show ?case by simp
next
  case (Cons session sessions)
  obtain s test_files where session: "session = (s, test_files)"
    by (cases session)
  obtain st self1 w1 where
    r: "run_batches (benv s) 0 (make_batches self test_files) (self, w) = (st, self1, w1)"
    by (metis prod_cases3)
  have "\<forall>b \<in> set (make_batches self test_files). set b \<subseteq> P"
    using Cons.prems session by (simp add: make_batches_def)
  from run_batches_requests [OF this, of "benv s" 0 self w] r obtain new1 where
    new1: "sent w1 = sent w @ new1"
      "\<forall>r \<in> set new1. \<exists>p \<in> P. fs w p = Some (payload r) \<and> file_name r = basename p"
    by auto
  have f: "fs w1 = fs w"
    using run_batches_frame [of "benv s" 0 "make_batches self test_files" self w] r by simp
  have step: "snd (snd (run_sessions benv (session # sessions) (self, w)))
      = snd (snd (run_sessions benv sessions (self1, w1)))"
    using r session by (cases st) simp_all
  from Cons.prems have "\<forall>session \<in> set sessions. set (snd session) \<subseteq> P" by simp
  from Cons.IH [OF this, of self1 w1] obtain new2 where
    new2: "sent (snd (snd (run_sessions benv sessions (self1, w1)))) = sent w1 @ new2"
      "\<forall>r \<in> set new2. \<exists>p \<in> P. fs w1 p = Some (payload r) \<and> file_name r = basename p"
    by blast
  have "sent (snd (snd (run_sessions benv (session # sessions) (self, w))))
      = sent w @ (new1 @ new2)"
    using step new1(1) new2(1) by simp
  moreover have "\<forall>r \<in> set (new1 @ new2).
      \<exists>p \<in> P. fs w p = Some (payload r) \<and> file_name r = basename p"
    using new1(2) new2(2) f by auto
  ultimately show ?case by blast
qed

lemma document_loop_first_sentence:
  assumes "0 < target_size"
  shows "\<exists>rest. document_loop rnd 0 [] target_size = sentence_at rnd 0 @ rest"
proof -
  have "document_loop rnd 0 [] target_size
      = document_loop rnd (0 + 1 + sentence_length_at rnd 0) ([] @ sentence_at rnd 0) target_size"
    using assms by (simp add: document_loop.simps [of rnd 0 "[]" target_size])
  with document_loop_sentences
    [of rnd "0 + 1 + sentence_length_at rnd 0" "[] @ sentence_at rnd 0" target_size]
  show ?thesis by auto
qed

lemma hd_join: "w \<noteq> [] \<Longrightarrow> hd (join sep (w # ws) @ tail) = hd w"
  by (cases ws) simp_all

lemma words_nonempty: "k < 20 \<Longrightarrow> words ! k \<noteq> []"
proof -
  have "\<forall>w \<in> set words. w \<noteq> []" by (simp add: words_def)
  moreover assume "k < 20"
  then have "words ! k \<in> set words" by (intro nth_mem) (simp add: words_def)
  ultimately show ?thesis by blast
qed

lemma hd_sentence_at: "hd (sentence_at rnd p @ rest) = hd (words ! (rnd (p + 1) mod 20))"
proof -
  from sentence_length_at_bounds [of rnd p] obtain n where n: "sentence_length_at rnd p = Suc n"
    by (cases "sentence_length_at rnd p") auto
  have "choices words (Suc n) (\<lambda>j. rnd (p + 1 + j))
      = words ! (rnd (p + 1) mod 20) # map (\<lambda>j. words ! (rnd (p + 1 + j) mod 20)) [1..<Suc n]"
    by (simp add: choices_def upt_conv_Cons words_def del: upt_Suc)
  then show ?thesis
    using words_nonempty [of "rnd (p + 1) mod 20"]
    by (simp add: sentence_at_def n hd_join del: upt_Suc)
qed

lemma hd_create_test_document:
  assumes "1 \<le> size_kb"
  shows "hd (create_test_document rnd size_kb) = hd (words ! (rnd 1 mod 20))"
proof -
  from assms have pos: "0 < size_kb * 1024" by simp
  from document_loop_first_sentence [OF pos, of rnd] obtain rest where
    rest: "document_loop rnd 0 [] (size_kb * 1024) = sentence_at rnd 0 @ rest"
    by blast
  have "hd (create_test_document rnd size_kb) = hd (document_loop rnd 0 [] (size_kb * 1024))"
    using pos by (simp add: create_test_document_def slice_to_def Let_def)
  also have "\<dots> = hd (sentence_at rnd 0 @ rest)"
    by (simp only: rest)
  finally show ?thesis
    using hd_sentence_at [of rnd 0 rest] by simp
qed

text \<open>
  Claim C6, as stated, fails: two sessions of one run write the same file names, and the
  file that session 0 wrote holds the document of session 1 afterwards, which differs
  from the one session 0 generated.
\<close>

theorem shared_file_names_counterexample:
  "snd (fst (prepare_sessions session_tapes [0, 1] empty_world) ! 0)
     = snd (fst (prepare_sessions session_tapes [0, 1] empty_world) ! 1)
   \<and> ''data/loadtest_doc_0_1kb.txt''
       \<in> set (snd (fst (prepare_sessions session_tapes [0, 1] empty_world) ! 0))
   \<and> fs (snd (prepare_sessions session_tapes [0, 1] empty_world)) ''data/loadtest_doc_0_1kb.txt''
       = Some (create_test_document (session_tapes 1 0) 1)
   \<and> create_test_document (session_tapes 0 0) 1 \<noteq> create_test_document (session_tapes 1 0) 1"
proof -
  have "hd (create_test_document (session_tapes 0 0) 1) = CHR ''d''"
    "hd (create_test_document (session_tapes 1 0) 1) = CHR ''p''"
    by (simp_all add: hd_create_test_document session_tapes_def words_def)
  then have "create_test_document (session_tapes 0 0) 1 \<noteq> create_test_document (session_tapes 1 0) 1"
    by auto
  moreover have "fs (snd (prepare_sessions session_tapes [0, 1] empty_world))
      ''data/loadtest_doc_0_1kb.txt'' = Some (create_test_document (session_tapes 1 0) 1)"
    using prepare_sessions_content [of "[0, 1]" 0 session_tapes empty_world]
    by (simp add: sizes_def corpus_files_eq)
  ultimately show ?thesis
    using prepare_sessions_frame [of session_tapes "[0, 1]" empty_world]
    by (simp add: corpus_files_eq)
qed

text \<open>
  Claim C6, amended. All sessions of a run write the same five file names. Every session
  writes its corpus before any request reads a file, so once the sessions are prepared
  each file holds the document the last session generated for that size class, and every
  request posted afterwards, by whichever session, uploads exactly that document: the
  content used for a size class is identical across all uses in the run.
\<close>

theorem sessions_share_corpus_files:
  assumes "ss \<noteq> []"
  shows "fst (prepare_sessions tp ss w) = map (\<lambda>s. (s, corpus_files)) ss
       \<and> (\<forall>i < length sizes.
             fs (snd (prepare_sessions tp ss w)) (corpus_files ! i)
               = Some (create_test_document (tp (last ss) i) (sizes ! i)))
       \<and> (\<forall>r \<in> set (drop (length (sent w))
                       (sent (snd (snd (run_sessions benv (fst (prepare_sessions tp ss w))
                                          (self, snd (prepare_sessions tp ss w))))))).
             \<exists>i < length sizes. file_name r = basename (corpus_files ! i)
                \<and> payload r = create_test_document (tp (last ss) i) (sizes ! i))"
proof (intro conjI allI impI ballI)
  show "fst (prepare_sessions tp ss w) = map (\<lambda>s. (s, corpus_files)) ss"
    using prepare_sessions_frame [of tp ss w] by simp
next
  fix i assume "i < length sizes"
  then show "fs (snd (prepare_sessions tp ss w)) (corpus_files ! i)
      = Some (create_test_document (tp (last ss) i) (sizes ! i))"
    by (rule prepare_sessions_content [OF assms])
next
  let ?w1 = "snd (prepare_sessions tp ss w)"
  let ?sessions = "fst (prepare_sessions tp ss w)"
  fix r
  assume r: "r \<in> set (drop (length (sent w))
      (sent (snd (snd (run_sessions benv ?sessions (self, ?w1))))))"
  have "\<forall>session \<in> set ?sessions. set (snd session) \<subseteq> set corpus_files"
    using prepare_sessions_frame [of tp ss w] by auto
  from run_sessions_requests [OF this, of benv self ?w1] obtain new where
    new: "sent (snd (snd (run_sessions benv ?sessions (self, ?w1)))) = sent ?w1 @ new"
      "\<forall>r \<in> set new. \<exists>p \<in> set corpus_files. fs ?w1 p = Some (payload r) \<and> file_name r = basename p"
    by blast
  have "sent ?w1 = sent w"
    using prepare_sessions_frame [of tp ss w] by simp
  with r new(1) have "r \<in> set new" by simp
  with new(2) obtain p where
    p: "p \<in> set corpus_files" "fs ?w1 p = Some (payload r)" "file_name r = basename p"
    by blast
  from p(1) obtain i where i: "i < length sizes" "p = corpus_files ! i"
    by (auto simp: in_set_conv_nth length_corpus_files)
  with p prepare_sessions_content [OF assms i(1), of tp w]
  show "\<exists>i < length sizes. file_name r = basename (corpus_files ! i)
      \<and> payload r = create_test_document (tp (last ss) i) (sizes ! i)"
    by auto
qed

theorem sessions_share_corpus_files_witness:
  "[0::nat, 1] \<noteq> []
   \<and> fst (prepare_sessions session_tapes [0, 1] empty_world)
       = [(0, corpus_files), (1, corpus_files)]
   \<and> fs (snd (prepare_sessions session_tapes [0, 1] empty_world)) (corpus_files ! 0)
       = Some (create_test_document (session_tapes 1 0) 1)"
proof -
  have ne: "[0::nat, 1] \<noteq> []" by simp
  from sessions_share_corpus_files [OF ne, of session_tapes empty_world]
  have "fst (prepare_sessions session_tapes [0, 1] empty_world)
          = map (\<lambda>s. (s, corpus_files)) [0, 1]"
    and "\<forall>i < length sizes.
          fs (snd (prepare_sessions session_tapes [0, 1] empty_world)) (corpus_files ! i)
            = Some (create_test_document (session_tapes (last [0, 1]) i) (sizes ! i))"
    by blast+
  then show ?thesis
    by (simp add: sizes_def)
qed

end
